theory Spec2Isabelle
  imports Main "HOL-Library.Word"
begin

section \<open>C strings and character classes\<close>

text \<open>
  A C string is represented by the list of its characters before the terminating NUL, so
  \<open>strlen\<close> is \<open>length\<close> and \<open>strcmp(a, b) == 0\<close> is equality. Reading the
  string at the index of its length yields the terminator, which \<open>char_at\<close> makes
  explicit. A list that contains the NUL character stands for no C string; \<open>cstring\<close>
  is the well-formedness condition.
\<close>

definition NUL :: char where
  "NUL = CHR 0x00"

definition char_at :: "string \<Rightarrow> nat \<Rightarrow> char" where
  "char_at s i = (if i < length s then s ! i else NUL)"

definition cstring :: "string \<Rightarrow> bool" where
  "cstring s = (NUL \<notin> set s)"

text \<open>
  The classification functions of \<open>ctype.h\<close> in the "C" locale (the shell never
  selects another one in the files at hand), by character code: a byte above 127 is in
  no class.
\<close>

definition isupper_c :: "char \<Rightarrow> bool" where
  "isupper_c c = (65 \<le> (of_char c :: nat) \<and> (of_char c :: nat) \<le> 90)"

definition islower_c :: "char \<Rightarrow> bool" where
  "islower_c c = (97 \<le> (of_char c :: nat) \<and> (of_char c :: nat) \<le> 122)"

definition isdigit_c :: "char \<Rightarrow> bool" where
  "isdigit_c c = (48 \<le> (of_char c :: nat) \<and> (of_char c :: nat) \<le> 57)"

definition isalpha_c :: "char \<Rightarrow> bool" where
  "isalpha_c c = (isupper_c c \<or> islower_c c)"

definition isalnum_c :: "char \<Rightarrow> bool" where
  "isalnum_c c = (isalpha_c c \<or> isdigit_c c)"

definition isspace_c :: "char \<Rightarrow> bool" where
  "isspace_c c = ((of_char c :: nat) = 32 \<or> (9 \<le> (of_char c :: nat) \<and> (of_char c :: nat) \<le> 13))"

section \<open>vars.c: name validation\<close>

text \<open>
  The body of the \<open>for\<close> loop of \<open>is_valid_varname\<close>, started at index \<open>i\<close>:
  \<open>for (size_t i = 1; i < strlen(name); ++i)\<close>, returning 0 at the first character that
  is neither alphanumeric nor an underscore.
\<close>

function is_valid_varname_loop :: "string \<Rightarrow> nat \<Rightarrow> bool" where
  "is_valid_varname_loop name i =
     (if i < length name then
        (if \<not> isalnum_c (name ! i) \<and> name ! i \<noteq> CHR ''_'' then False
         else is_valid_varname_loop name (Suc i))
      else True)"
  by pat_completeness auto
termination
  by (relation "measure (\<lambda>(name, i). length name - i)") auto

declare is_valid_varname_loop.simps [simp del]

text \<open>
  \<open>is_valid_varname\<close>: the first character (the terminator, for the empty string) must be
  alphabetic or an underscore, then the loop checks the rest. The C function returns 1 or
  0; the model returns the truth value.
\<close>

definition is_valid_varname :: "string \<Rightarrow> bool" where
  "is_valid_varname name =
     (if \<not> isalpha_c (char_at name 0) \<and> char_at name 0 \<noteq> CHR ''_'' then False
      else is_valid_varname_loop name 1)"

definition vars_is_valid_varname :: "string \<Rightarrow> bool" where
  "vars_is_valid_varname name = is_valid_varname name"

text \<open>
  The name grammar in the words of the specification: non-empty, first character a letter
  or underscore, every later character a letter, a digit or an underscore. Letters and
  digits are listed character by character.
\<close>

definition letters :: string where
  "letters = ''ABCDEFGHIJKLMNOPQRSTUVWXYZabcdefghijklmnopqrstuvwxyz''"

definition digits :: string where
  "digits = ''0123456789''"

definition posix_name :: "string \<Rightarrow> bool" where
  "posix_name s =
     (s \<noteq> [] \<and> (hd s \<in> set letters \<or> hd s = CHR ''_'') \<and>
      (\<forall>c \<in> set (tl s). c \<in> set letters \<or> c \<in> set digits \<or> c = CHR ''_''))"

section \<open>vars.c: the variable table and the process environment\<close>

text \<open>
  \<open>struct var\<close>: the fields \<open>name\<close>, \<open>export\<close> and \<open>value\<close> (prefixed here, since
  \<open>value\<close> is a command of the proof language); \<open>value\<close> may be the null pointer. The
  \<open>next\<close> pointers are the list structure: \<open>var_list\<close> is the list of nodes from the
  head, and a pointer to a node is its position in that list.
\<close>

record var =
  var_name :: string
  var_export :: bool
  var_value :: "string option"

text \<open>
  What a builtin does to the outside world, in the order of the calls: a \<open>dprintf\<close> to a
  descriptor, a \<open>chdir\<close>, a \<open>kill\<close>.
\<close>

datatype event =
    Write int string
  | Chdir "string option"
  | Kill int int

text \<open>
  The state of the shell process as far as the two files touch it: the private table
  \<open>var_list\<close>, the process environment (\<open>getenv\<close>, \<open>setenv\<close>, \<open>unsetenv\<close>), the working
  directory, \<open>params.status\<close>, and the trace of the system calls made so far. \<open>errno\<close> is
  left out: the only place that reads it, the \<open>err\<close> label of \<open>builtin_fg\<close>, gets its
  value passed along.
\<close>

record shell =
  var_list :: "var list"
  environ :: "string \<Rightarrow> string option"
  cwd :: string
  params_status :: int
  trace :: "event list"

text \<open>
  The outcomes the library decides during one call: whether \<open>malloc\<close>, \<open>strdup\<close> and
  \<open>setenv\<close> find memory, which directory a path names from a given working directory
  (\<open>None\<close>: \<open>chdir\<close> fails), and the text of \<open>strerror\<close>.
\<close>

record sys =
  malloc_ok :: bool
  strdup_ok :: bool
  setenv_ok :: bool
  resolve_dir :: "string \<Rightarrow> string \<Rightarrow> string option"
  strerror :: "int \<Rightarrow> string"

definition EINVAL :: int where
  "EINVAL = 22"

definition SIGCONT :: int where
  "SIGCONT = 18"

definition STDERR_FILENO :: int where
  "STDERR_FILENO = 2"

definition INT_MAX :: int where
  "INT_MAX = 2147483647"

definition LONG_MAX :: int where
  "LONG_MAX = 9223372036854775807"

definition LONG_MIN :: int where
  "LONG_MIN = - 9223372036854775808"

definition getenv :: "string \<Rightarrow> shell \<Rightarrow> string option" where
  "getenv n s = environ s n"

text \<open>
  \<open>setenv(name, value, 1)\<close>: fails (\<open>-1\<close>) on an empty name, on a name with \<open>=\<close>, and
  when memory runs out; otherwise the environment holds the value under the name.
\<close>

definition setenv :: "sys \<Rightarrow> string \<Rightarrow> string \<Rightarrow> shell \<Rightarrow> int \<times> shell" where
  "setenv y n v s =
     (if n = [] \<or> CHR ''='' \<in> set n \<or> \<not> setenv_ok y then (- 1, s)
      else (0, s\<lparr>environ := (environ s)(n \<mapsto> v)\<rparr>))"

definition unsetenv :: "string \<Rightarrow> shell \<Rightarrow> int \<times> shell" where
  "unsetenv n s =
     (if n = [] \<or> CHR ''='' \<in> set n then (- 1, s)
      else (0, s\<lparr>environ := (environ s)(n := None)\<rparr>))"

text \<open>
  \<open>find_var\<close>: the first node whose name compares equal, as its position; \<open>None\<close> is the
  null pointer. Its assertions (and those of \<open>new_var\<close>, \<open>remove_var\<close> and \<open>ensure_var\<close>)
  restate the guard every public function has passed before the call.
\<close>

fun find_var :: "string \<Rightarrow> var list \<Rightarrow> nat option" where
  "find_var n [] = None"
| "find_var n (v # vs) = (if var_name v = n then Some 0 else map_option Suc (find_var n vs))"

text \<open>
  \<open>new_var\<close>: null when \<open>malloc\<close> fails; otherwise a node with the name, exported exactly
  when the environment has the name, without a value, linked in at the head.
\<close>

definition new_var :: "sys \<Rightarrow> string \<Rightarrow> shell \<Rightarrow> nat option \<times> shell" where
  "new_var y n s =
     (if \<not> malloc_ok y then (None, s)
      else (Some 0,
            s\<lparr>var_list :=
                \<lparr>var_name = n, var_export = (getenv n s \<noteq> None), var_value = None\<rparr>
                # var_list s\<rparr>))"

text \<open>\<open>remove_var\<close>: unlinks the first node with the name, if there is one.\<close>

fun remove_var :: "string \<Rightarrow> var list \<Rightarrow> var list" where
  "remove_var n [] = []"
| "remove_var n (v # vs) = (if var_name v = n then vs else v # remove_var n vs)"

definition ensure_var :: "sys \<Rightarrow> string \<Rightarrow> shell \<Rightarrow> nat option \<times> shell" where
  "ensure_var y n s =
     (case find_var n (var_list s) of
        Some i \<Rightarrow> (Some i, s)
      | None \<Rightarrow> new_var y n s)"

text \<open>
  The public functions take pointers that may be null: \<open>None\<close>. \<open>vars_set\<close> returns what
  \<open>setenv\<close> returns for an exported record and stores a copy of the value in the node
  otherwise.
\<close>

definition vars_set :: "sys \<Rightarrow> string option \<Rightarrow> string option \<Rightarrow> shell \<Rightarrow> int \<times> shell" where
  "vars_set y name val s =
     (case name of
        None \<Rightarrow> (- 1, s)
      | Some n \<Rightarrow>
          (case val of
             None \<Rightarrow> (- 1, s)
           | Some v \<Rightarrow>
               if \<not> is_valid_varname n then (- 1, s)
               else
                 (case ensure_var y n s of
                    (None, s1) \<Rightarrow> (- 1, s1)
                  | (Some i, s1) \<Rightarrow>
                      if var_export (var_list s1 ! i) then setenv y n v s1
                      else if \<not> strdup_ok y then (- 1, s1)
                      else (0, s1\<lparr>var_list :=
                                  (var_list s1)[i := (var_list s1 ! i)\<lparr>var_value := Some v\<rparr>]\<rparr>))))"

definition vars_get :: "string option \<Rightarrow> shell \<Rightarrow> string option" where
  "vars_get name s =
     (case name of
        None \<Rightarrow> None
      | Some n \<Rightarrow>
          if \<not> is_valid_varname n then None
          else
            (case find_var n (var_list s) of
               Some i \<Rightarrow>
                 if \<not> var_export (var_list s ! i) then var_value (var_list s ! i)
                 else getenv n s
             | None \<Rightarrow> getenv n s))"

definition vars_unset :: "string option \<Rightarrow> shell \<Rightarrow> int \<times> shell" where
  "vars_unset name s =
     (case name of
        None \<Rightarrow> (- 1, s)
      | Some n \<Rightarrow>
          if \<not> is_valid_varname n then (- 1, s)
          else unsetenv n (s\<lparr>var_list := remove_var n (var_list s)\<rparr>))"

text \<open>
  \<open>vars_export\<close>: the node is marked exported first; then, if it holds a value, the value
  goes to the environment, and a failing \<open>setenv\<close> returns \<open>-1\<close> from there.
\<close>

definition vars_export :: "sys \<Rightarrow> string option \<Rightarrow> shell \<Rightarrow> int \<times> shell" where
  "vars_export y name s =
     (case name of
        None \<Rightarrow> (- 1, s)
      | Some n \<Rightarrow>
          if \<not> is_valid_varname n then (- 1, s)
          else
            (case ensure_var y n s of
               (None, s1) \<Rightarrow> (- 1, s1)
             | (Some i, s1) \<Rightarrow>
                 (let s2 = s1\<lparr>var_list :=
                              (var_list s1)[i := (var_list s1 ! i)\<lparr>var_export := True\<rparr>]\<rparr>
                  in case var_value (var_list s2 ! i) of
                       None \<Rightarrow> (0, s2)
                     | Some v \<Rightarrow>
                         (case setenv y (var_name (var_list s2 ! i)) v s2 of
                            (r, s3) \<Rightarrow> if r < 0 then (- 1, s3) else (0, s3)))))"

definition vars_cleanup :: "shell \<Rightarrow> shell" where
  "vars_cleanup s = s\<lparr>var_list := []\<rparr>"

text \<open>
  A sequence of calls of the four operations of the store, each with the library outcomes
  of its own call.
\<close>

datatype vars_op =
    Op_set sys "string option" "string option"
  | Op_get "string option"
  | Op_unset "string option"
  | Op_export sys "string option"

fun apply_op :: "vars_op \<Rightarrow> shell \<Rightarrow> shell" where
  "apply_op (Op_set y name val) s = snd (vars_set y name val s)"
| "apply_op (Op_get name) s = s"
| "apply_op (Op_unset name) s = snd (vars_unset name s)"
| "apply_op (Op_export y name) s = snd (vars_export y name s)"

fun run_ops :: "vars_op list \<Rightarrow> shell \<Rightarrow> shell" where
  "run_ops [] s = s"
| "run_ops (x # xs) s = run_ops xs (apply_op x s)"

text \<open>The number of records the private table holds for a name.\<close>

definition records_for :: "string \<Rightarrow> shell \<Rightarrow> nat" where
  "records_for n s = length (filter (\<lambda>v. var_name v = n) (var_list s))"

section \<open>builtins.c\<close>

text \<open>
  \<open>struct builtin_redir\<close> (declared in a header that is not at hand): the two descriptor
  fields the code reads; the \<open>next\<close> pointers are the list. \<open>struct command\<close>: the words,
  \<open>word_count\<close> being their number.
\<close>

record builtin_redir =
  pseudofd :: int
  realfd :: int

record command =
  words :: "string list"

definition word_count :: "command \<Rightarrow> nat" where
  "word_count cmd = length (words cmd)"

text \<open>
  \<open>get_pseudo_fd\<close>: one pass over the list; at each node the real descriptor is compared
  first, then the pseudo descriptor.
\<close>

fun get_pseudo_fd :: "builtin_redir list \<Rightarrow> int \<Rightarrow> int" where
  "get_pseudo_fd [] fd = fd"
| "get_pseudo_fd (r # rs) fd =
     (if realfd r = fd then - 1
      else if pseudofd r = fd then realfd r
      else get_pseudo_fd rs fd)"

text \<open>
  The shim in the words of the specification, read clause by clause: \<open>-1\<close> if some pair
  has the descriptor in its real slot; otherwise the real descriptor of the first pair
  with it in its pseudo slot; otherwise the descriptor itself.
\<close>

definition resolve_by_clauses :: "builtin_redir list \<Rightarrow> int \<Rightarrow> int" where
  "resolve_by_clauses L fd =
     (if list_ex (\<lambda>r. realfd r = fd) L then - 1
      else (case find (\<lambda>r. pseudofd r = fd) L of
              Some r \<Rightarrow> realfd r
            | None \<Rightarrow> fd))"

text \<open>
  \<open>dprintf\<close>, \<open>kill\<close> and \<open>chdir\<close> append the call to the trace. A \<open>dprintf\<close> is recorded
  with the descriptor it is given, also when that is \<open>-1\<close>. \<open>chdir\<close> moves the process
  only when the path names a directory.
\<close>

definition dprintf :: "int \<Rightarrow> string \<Rightarrow> shell \<Rightarrow> shell" where
  "dprintf fd text s = s\<lparr>trace := trace s @ [Write fd text]\<rparr>"

definition kill :: "int \<Rightarrow> int \<Rightarrow> shell \<Rightarrow> shell" where
  "kill pid sig s = s\<lparr>trace := trace s @ [Kill pid sig]\<rparr>"

definition chdir :: "sys \<Rightarrow> string option \<Rightarrow> shell \<Rightarrow> int \<times> shell" where
  "chdir y path s =
     (let s1 = s\<lparr>trace := trace s @ [Chdir path]\<rparr> in
      case path of
        None \<Rightarrow> (- 1, s1)
      | Some p \<Rightarrow>
          (case resolve_dir y (cwd s) p of
             None \<Rightarrow> (- 1, s1)
           | Some d \<Rightarrow> (0, s1\<lparr>cwd := d\<rparr>)))"

text \<open>The events a call has added to the trace of the state it started from.\<close>

definition new_events :: "shell \<Rightarrow> shell \<Rightarrow> event list" where
  "new_events s s' = drop (length (trace s)) (trace s')"

definition newline :: string where
  "newline = [CHR 0x0A]"

text \<open>
  \<open>builtin_cd\<close>. The debugging macro \<open>gprintf\<close> is outside the model, and with it the
  loop over the words before \<open>chdir\<close>. The value \<open>chdir\<close> returns is dropped, as in the
  source.
\<close>

definition builtin_cd :: "sys \<Rightarrow> command \<Rightarrow> builtin_redir list \<Rightarrow> shell \<Rightarrow> int \<times> shell" where
  "builtin_cd y cmd redir_list s =
     (let target_dir = (if word_count cmd = 1 then vars_get (Some ''HOME'') s else None) in
      if word_count cmd = 1 \<and> target_dir = None then
        (- 1, dprintf (get_pseudo_fd redir_list STDERR_FILENO) (''cd: HOME not set'' @ newline) s)
      else if word_count cmd > 2 then
        (- 1, dprintf (get_pseudo_fd redir_list STDERR_FILENO)
                (''cd: Too many arguments'' @ newline) s)
      else if word_count cmd = 2 then
        (if \<not> vars_is_valid_varname (words cmd ! 1) then (- 1, s)
         else
           (case vars_set y (Some ''PWD'') (Some (words cmd ! 1)) s of
              (r, s1) \<Rightarrow>
                if r \<noteq> 0 then
                  (- 1, dprintf (get_pseudo_fd redir_list STDERR_FILENO)
                          (''cd: Error setting PWD'' @ newline) s1)
                else (0, snd (chdir y (vars_get (Some ''PWD'') s1) s1))))
      else
        (case vars_set y (Some ''PWD'') target_dir s of
           (r, s1) \<Rightarrow>
             if r \<noteq> 0 then
               (- 1, dprintf (get_pseudo_fd redir_list STDERR_FILENO)
                       (''cd: Error setting PWD'' @ newline) s1)
             else (0, snd (chdir y (vars_get (Some ''PWD'') s1) s1))))"

text \<open>
  \<open>strtol(s, &endptr, 10)\<close> of the C library: white space is skipped, one sign is taken,
  then the decimal digits. The result is the value, clamped to the range of \<open>long\<close>, and
  the index \<open>endptr\<close> points at; with no digit, no conversion is made and \<open>endptr\<close> is
  the start of the string.
\<close>

definition strtol :: "string \<Rightarrow> int \<times> nat" where
  "strtol s =
     (let ws = takeWhile isspace_c s;
          r = dropWhile isspace_c s;
          sg = (if char_at r 0 = CHR ''-'' \<or> char_at r 0 = CHR ''+'' then 1 else 0);
          ds = takeWhile isdigit_c (drop sg r);
          mag = foldl (\<lambda>a c. 10 * a + (int (of_char c) - 48)) 0 ds;
          v = (if char_at r 0 = CHR ''-'' then - mag else mag)
      in if ds = [] then (0, 0)
         else (max LONG_MIN (min LONG_MAX v), length ws + sg + length ds))"

text \<open>The conversion of a \<open>long\<close> to \<open>int\<close>: the low 32 bits, read as signed.\<close>

definition long_to_int :: "int \<Rightarrow> int" where
  "long_to_int v = sint (word_of_int v :: 32 word)"

text \<open>
  What a call of a builtin comes to: it returns a status, or the process ends inside it.
\<close>

datatype outcome = Returns int | Exits

text \<open>
  Modelled from the spec: \<open>bigshell_exit\<close> is defined in a file that is not at hand.
  "Process exit: terminate the process immediately with a given status code; never
  returns."
\<close>

definition bigshell_exit :: "shell \<Rightarrow> outcome \<times> shell" where
  "bigshell_exit s = (Exits, s)"

definition builtin_exit :: "command \<Rightarrow> builtin_redir list \<Rightarrow> shell \<Rightarrow> outcome \<times> shell" where
  "builtin_exit cmd redir_list s =
     (if word_count cmd > 2 then
        (Returns (- 1), dprintf (get_pseudo_fd redir_list STDERR_FILENO)
                          (''exit: Too many arguments'' @ newline) s)
      else if word_count cmd = 2 then
        (case strtol (words cmd ! 1) of
           (v, endptr) \<Rightarrow>
             if char_at (words cmd ! 1) endptr \<noteq> NUL
                \<or> char_at (words cmd ! 1) endptr = char_at (words cmd ! 1) 0
             then (Returns (- 1), dprintf (get_pseudo_fd redir_list STDERR_FILENO)
                                    (''exit: Non-numeric value given'' @ newline) s)
             else bigshell_exit (s\<lparr>params_status := long_to_int v\<rparr>))
      else bigshell_exit (s\<lparr>params_status := params_status s\<rparr>))"

text \<open>
  The argument of \<open>exit\<close> in the words of the specification: a base-10 integer as
  \<open>strtol\<close> reads one (leading white space, one optional sign), with at least one digit
  and nothing after the digits.
\<close>

definition parses_base10 :: "string \<Rightarrow> bool" where
  "parses_base10 s =
     (let r = dropWhile isspace_c s;
          d = (case r of
                 [] \<Rightarrow> []
               | c # t \<Rightarrow> if c = CHR ''-'' \<or> c = CHR ''+'' then t else r)
      in d \<noteq> [] \<and> list_all (\<lambda>c. c \<in> set digits) d)"

text \<open>
  The job-control facade (\<open>jobs.h\<close>, \<open>wait.h\<close>), taken as given: the job list
  (\<open>jobs_get_joblist\<close>, its length being \<open>jobs_get_joblist_size\<close>), \<open>jobs_get_pgid\<close>
  (negative when the job cannot be resolved), and \<open>wait_on_fg_job\<close>, which may never
  return (\<open>None\<close>) and otherwise gives its result, the \<open>errno\<close> it leaves and the state.
\<close>

record job =
  jid :: int
  pgid :: int

record jobs =
  joblist :: "job list"
  jobs_get_pgid :: "int \<Rightarrow> int"
  wait_on_fg_job :: "int \<Rightarrow> shell \<Rightarrow> (int \<times> int \<times> shell) option"

text \<open>
  How a call of \<open>builtin_fg\<close> ends: it returns a status and a state, it blocks for ever in
  the wait, or it reads a word the command does not have.
\<close>

datatype 'a behaviour = Finishes 'a | Never_returns | Undefined_read

text \<open>
  The first part of \<open>builtin_fg\<close>, up to the assignment of \<open>job_id\<close>: an early return
  (\<open>Inl\<close>) or the job id (\<open>Inr\<close>).
\<close>

definition fg_job_id ::
  "sys \<Rightarrow> jobs \<Rightarrow> command \<Rightarrow> builtin_redir list \<Rightarrow> shell \<Rightarrow> (int \<times> shell) behaviour + int" where
  "fg_job_id y J cmd redir_list s =
     (if word_count cmd = 1 then
        (if length (joblist J) = 0 then
           Inl (Finishes (- 1, dprintf (get_pseudo_fd redir_list STDERR_FILENO)
                                 (''No jobs'' @ newline) s))
         else Inr (jid (joblist J ! 0)))
      else if word_count cmd = 2 then
        (case strtol (words cmd ! 1) of
           (val, e) \<Rightarrow>
             if char_at (words cmd ! 1) e \<noteq> NUL \<or> char_at (words cmd ! 1) 0 = NUL
                \<or> val < 0 \<or> val > INT_MAX
             then Inl (Finishes (- 1, dprintf (get_pseudo_fd redir_list STDERR_FILENO)
                    (''fg: '' @ [CHR 0x60] @ words cmd ! 1 @ [CHR 0x27] @ '': ''
                     @ strerror y EINVAL @ newline) s))
             else Inr val)
      else if word_count cmd > 2 then
        Inl (Finishes (- 1, dprintf (get_pseudo_fd redir_list STDERR_FILENO)
               (''fg: '' @ [CHR 0x60] @ words cmd ! 2 @ [CHR 0x27] @ '': ''
                @ strerror y EINVAL @ newline) s))
      else Inl Undefined_read)"

text \<open>
  \<open>builtin_fg\<close>: after the job id, the process group is resolved; a negative one goes to
  the \<open>err\<close> label with \<open>errno = EINVAL\<close>; otherwise the group is signalled and the job
  waited for.
\<close>

definition builtin_fg ::
  "sys \<Rightarrow> jobs \<Rightarrow> command \<Rightarrow> builtin_redir list \<Rightarrow> shell \<Rightarrow> (int \<times> shell) behaviour" where
  "builtin_fg y J cmd redir_list s =
     (case fg_job_id y J cmd redir_list s of
        Inl early \<Rightarrow> early
      | Inr job_id \<Rightarrow>
          (let pg = jobs_get_pgid J job_id in
           if pg < 0 then
             Finishes (- 1, dprintf (get_pseudo_fd redir_list STDERR_FILENO)
                              (''fg: '' @ strerror y EINVAL) s)
           else
             (case wait_on_fg_job J job_id (kill (- pg) SIGCONT s) of
                None \<Rightarrow> Never_returns
              | Some (r, e, s2) \<Rightarrow>
                  if r < 0 then
                    Finishes (- 1, dprintf (get_pseudo_fd redir_list STDERR_FILENO)
                                     (''fg: '' @ strerror y e) s2)
                  else Finishes (0, s2))))"

section \<open>Scenario states\<close>

text \<open>
  Concrete calls for the scenarios: a library that never fails and where every path names
  itself as a directory, one where \<open>setenv\<close> finds no memory, one where no path is a
  directory, one where \<open>malloc\<close> finds no memory, and a shell with an empty table whose
  environment has \<open>HOME=/home/u\<close>.
\<close>

definition all_ok :: sys where
  "all_ok = \<lparr>malloc_ok = True, strdup_ok = True, setenv_ok = True,
             resolve_dir = (\<lambda>d p. Some p), strerror = (\<lambda>e. ''Invalid argument'')\<rparr>"

definition setenv_fails :: sys where
  "setenv_fails = all_ok\<lparr>setenv_ok := False\<rparr>"

definition no_directory :: sys where
  "no_directory = all_ok\<lparr>resolve_dir := (\<lambda>d p. None)\<rparr>"

definition no_memory :: sys where
  "no_memory = all_ok\<lparr>malloc_ok := False\<rparr>"

definition boot :: shell where
  "boot = \<lparr>var_list = [], environ = [''HOME'' \<mapsto> ''/home/u''], cwd = ''/'',
            params_status = 0, trace = []\<rparr>"

text \<open>A shell whose table holds the unexported variable \<open>X=v\<close>, with an empty environment.\<close>

definition private_X :: shell where
  "private_X = \<lparr>var_list = [\<lparr>var_name = ''X'', var_export = False, var_value = Some ''v''\<rparr>],
                 environ = Map.empty, cwd = ''/'', params_status = 0, trace = []\<rparr>"

text \<open>
  Two job-control facades: one with no job at all, and one with the single job 3 in
  process group 40, whose wait returns 0 at once.
\<close>

definition no_jobs :: jobs where
  "no_jobs = \<lparr>joblist = [], jobs_get_pgid = (\<lambda>j. - 1),
              wait_on_fg_job = (\<lambda>j s. Some (0, 0, s))\<rparr>"

definition job_3 :: jobs where
  "job_3 = \<lparr>joblist = [\<lparr>jid = 3, pgid = 40\<rparr>],
            jobs_get_pgid = (\<lambda>j. if j = 3 then 40 else - 1),
            wait_on_fg_job = (\<lambda>j s. Some (0, 0, s))\<rparr>"

section \<open>Name validation\<close>

lemma isalpha_c_letters: "isalpha_c c \<longleftrightarrow> c \<in> set letters"
proof -
  have "isalpha_c c \<longleftrightarrow> (of_char c :: nat) \<in> {65..90} \<union> {97..122}"
    by (auto simp: isalpha_c_def isupper_c_def islower_c_def)
  also have "\<dots> \<longleftrightarrow> (of_char c :: nat) \<in> of_char ` set letters"
    unfolding letters_def by simp presburger
  also have "\<dots> \<longleftrightarrow> c \<in> set letters"
    by (metis (no_types) image_iff char_of_char)
  finally show ?thesis .
qed

lemma isdigit_c_digits: "isdigit_c c \<longleftrightarrow> c \<in> set digits"
proof -
  have "isdigit_c c \<longleftrightarrow> (of_char c :: nat) \<in> {48..57}"
    by (auto simp: isdigit_c_def)
  also have "\<dots> \<longleftrightarrow> (of_char c :: nat) \<in> of_char ` set digits"
    unfolding digits_def by simp presburger
  also have "\<dots> \<longleftrightarrow> c \<in> set digits"
    by (metis (no_types) image_iff char_of_char)
  finally show ?thesis .
qed

lemma is_valid_varname_loop_iff:
  "is_valid_varname_loop name i \<longleftrightarrow>
     (\<forall>j. i \<le> j \<and> j < length name \<longrightarrow> isalnum_c (name ! j) \<or> name ! j = CHR ''_'')"
proof (induction name i rule: is_valid_varname_loop.induct)
  case (1 name i)
  show ?case
  proof (cases "i < length name")
    case False
    then show ?thesis by (auto simp: is_valid_varname_loop.simps [of name i])
  next
    case True
    show ?thesis
    proof (cases "isalnum_c (name ! i) \<or> name ! i = CHR ''_''")
      case False
      with True show ?thesis
        by (auto simp: is_valid_varname_loop.simps [of name i])
    next
      case ok: True
      have "is_valid_varname_loop name i = is_valid_varname_loop name (Suc i)"
        using True ok by (auto simp: is_valid_varname_loop.simps [of name i])
      also have "\<dots> \<longleftrightarrow> (\<forall>j. Suc i \<le> j \<and> j < length name \<longrightarrow>
                  isalnum_c (name ! j) \<or> name ! j = CHR ''_'')"
        using "1.IH" True ok by blast
      also have "\<dots> \<longleftrightarrow> (\<forall>j. i \<le> j \<and> j < length name \<longrightarrow>
                  isalnum_c (name ! j) \<or> name ! j = CHR ''_'')"
        using ok by (metis Suc_leI le_neq_implies_less Suc_leD)
      finally show ?thesis .
    qed
  qed
qed

lemma set_tl_nth: "set (tl s) = {s ! j | j. 1 \<le> j \<and> j < length s}"
proof (cases s)
  case Nil
  then show ?thesis by simp
next
  case (Cons a t)
  have "set t = {t ! k | k. k < length t}" by (auto simp: set_conv_nth)
  also have "\<dots> = {(a # t) ! j | j. 1 \<le> j \<and> j < length (a # t)}"
    apply (rule set_eqI) apply simp
    by (metis Suc_le_eq Suc_less_eq Suc_pred nth_Cons_Suc not_less_eq zero_less_Suc less_Suc_eq_0_disj)
  finally show ?thesis using Cons by simp
qed

lemma is_valid_varname_posix: "is_valid_varname s = posix_name s"
proof (cases s)
  case Nil
  then show ?thesis
    by (simp add: is_valid_varname_def posix_name_def char_at_def NUL_def isalpha_c_def
        isupper_c_def islower_c_def)
next
  case (Cons a t)
  have rest: "is_valid_varname_loop s 1 \<longleftrightarrow>
      (\<forall>c \<in> set (tl s). c \<in> set letters \<or> c \<in> set digits \<or> c = CHR ''_'')"
    unfolding is_valid_varname_loop_iff set_tl_nth
    by (auto simp: isalnum_c_def isalpha_c_letters isdigit_c_digits)
  show ?thesis
    using Cons rest
    by (auto simp: is_valid_varname_def posix_name_def char_at_def isalpha_c_letters)
qed

text \<open>
  C4. For every string \<open>S\<close>, \<open>vars_is_valid_varname\<close> (and \<open>is_valid_varname\<close>, which it
  calls) accepts \<open>S\<close> if and only if \<open>S\<close> is non-empty, its first character is a letter or
  an underscore, and every later character is a letter, a digit or an underscore. The
  strings \<open>1abc\<close>, the empty string and \<open>a-b\<close> are rejected; \<open>_a1\<close>, \<open>A\<close> and \<open>a_B2\<close> are
  accepted.
\<close>

theorem vars_is_valid_varname_grammar:
  "vars_is_valid_varname S = posix_name S
   \<and> is_valid_varname S = posix_name S
   \<and> \<not> vars_is_valid_varname ''1abc''
   \<and> \<not> vars_is_valid_varname ''''
   \<and> \<not> vars_is_valid_varname ''a-b''
   \<and> vars_is_valid_varname ''_a1''
   \<and> vars_is_valid_varname ''A''
   \<and> vars_is_valid_varname ''a_B2''"
proof -
  have "vars_is_valid_varname S = posix_name S"
    by (simp add: vars_is_valid_varname_def is_valid_varname_posix)
  moreover have "is_valid_varname S = posix_name S"
    by (rule is_valid_varname_posix)
  moreover have "\<not> vars_is_valid_varname ''1abc''" by code_simp
  moreover have "\<not> vars_is_valid_varname ''''" by code_simp
  moreover have "\<not> vars_is_valid_varname ''a-b''" by code_simp
  moreover have "vars_is_valid_varname ''_a1''" by code_simp
  moreover have "vars_is_valid_varname ''A''" by code_simp
  moreover have "vars_is_valid_varname ''a_B2''" by code_simp
  ultimately show ?thesis by blast
qed

theorem vars_is_valid_varname_grammar_witness:
  "posix_name ''x_9'' \<and> vars_is_valid_varname ''x_9''
   \<and> \<not> posix_name ''9x'' \<and> \<not> vars_is_valid_varname ''9x''"
proof -
  have a: "posix_name ''x_9''"
    by (simp add: posix_name_def letters_def digits_def)
  have b: "\<not> posix_name ''9x''"
    by (simp add: posix_name_def letters_def digits_def)
  from a b vars_is_valid_varname_grammar [of "''x_9''"] vars_is_valid_varname_grammar [of "''9x''"]
  show ?thesis by blast
qed

lemma valid_name_chars:
  assumes "is_valid_varname n"
  shows "n \<noteq> [] \<and> CHR ''='' \<notin> set n"
proof -
  from assms have p: "posix_name n" by (simp add: is_valid_varname_posix)
  then have ne: "n \<noteq> []" by (simp add: posix_name_def)
  then have "set n = insert (hd n) (set (tl n))" by (cases n) auto
  moreover have "CHR ''='' \<notin> set letters" "CHR ''='' \<notin> set digits"
    by (simp_all add: letters_def digits_def)
  ultimately show ?thesis using p ne by (auto simp: posix_name_def)
qed

lemma valid_PWD: "is_valid_varname ''PWD''"
  by code_simp

lemma valid_HOME: "is_valid_varname ''HOME''"
  by code_simp

lemma valid_X: "is_valid_varname ''X''"
  by code_simp

section \<open>The variable store\<close>

lemma find_var_Some:
  "find_var n l = Some i \<Longrightarrow> i < length l \<and> var_name (l ! i) = n"
proof (induction l arbitrary: i)
  case Nil
  then show ?case by simp
next
  case (Cons v vs)
  show ?case
  proof (cases "var_name v = n")
    case True
    with Cons.prems show ?thesis by simp
  next
    case False
    with Cons.prems obtain k where k: "find_var n vs = Some k" "i = Suc k"
      by auto
    with Cons.IH [of k] show ?thesis by simp
  qed
qed

lemma find_var_None: "find_var n l = None \<longleftrightarrow> n \<notin> var_name ` set l"
  by (induction l) auto

lemma find_var_names:
  "map var_name l' = map var_name l \<Longrightarrow> find_var n l' = find_var n l"
proof (induction l arbitrary: l')
  case Nil
  then show ?case by simp
next
  case (Cons v vs)
  then obtain v' vs' where l': "l' = v' # vs'" by (cases l') auto
  with Cons.prems have "var_name v' = var_name v" "map var_name vs' = map var_name vs"
    by auto
  with Cons.IH [of vs'] l' show ?case by simp
qed

lemma map_var_name_update:
  "i < length l \<Longrightarrow> var_name w = var_name (l ! i) \<Longrightarrow> map var_name (l[i := w]) = map var_name l"
  by (simp add: map_update list_update_same_conv)

lemma find_var_update:
  "i < length l \<Longrightarrow> var_name w = var_name (l ! i) \<Longrightarrow> find_var n (l[i := w]) = find_var n l"
  by (rule find_var_names) (rule map_var_name_update)

lemma ensure_var_Some:
  assumes "ensure_var y n s = (Some i, s1)"
  shows "find_var n (var_list s1) = Some i \<and> environ s1 = environ s \<and> cwd s1 = cwd s
         \<and> trace s1 = trace s \<and> params_status s1 = params_status s"
proof (cases "find_var n (var_list s)")
  case None
  with assms show ?thesis
    by (auto simp: ensure_var_def new_var_def split: if_splits)
next
  case (Some k)
  with assms show ?thesis by (simp add: ensure_var_def)
qed

text \<open>With a valid name and a library that does not fail, \<open>vars_set\<close> succeeds.\<close>

lemma vars_set_succeeds:
  assumes "is_valid_varname N" "malloc_ok y" "strdup_ok y" "setenv_ok y"
  shows "fst (vars_set y (Some N) (Some V) s) = 0"
  using assms valid_name_chars [OF assms(1)]
  by (auto simp: vars_set_def ensure_var_def new_var_def setenv_def
      split: option.splits prod.splits if_splits)

lemma vars_set_then_get_aux:
  assumes "vars_set y (Some N) (Some V) s = (0, s')"
  shows "vars_get (Some N) s' = Some V"
proof -
  from assms have valid: "is_valid_varname N"
    by (auto simp: vars_set_def split: if_splits)
  obtain p s1 where ens: "ensure_var y N s = (p, s1)" by (cases "ensure_var y N s")
  with assms valid obtain i where p: "p = Some i"
    by (cases p) (auto simp: vars_set_def)
  from ensure_var_Some [OF ens [unfolded p]] have fv: "find_var N (var_list s1) = Some i"
    by simp
  from find_var_Some [OF fv] have i: "i < length (var_list s1)" by simp
  show ?thesis
  proof (cases "var_export (var_list s1 ! i)")
    case True
    with assms valid ens p have "setenv y N V s1 = (0, s')"
      by (simp add: vars_set_def)
    then have s': "s' = s1\<lparr>environ := (environ s1)(N \<mapsto> V)\<rparr>"
      by (auto simp: setenv_def split: if_splits)
    show ?thesis
      using valid fv True by (simp add: vars_get_def s' getenv_def)
  next
    case False
    with assms valid ens p have
      s': "s' = s1\<lparr>var_list := (var_list s1)[i := (var_list s1 ! i)\<lparr>var_value := Some V\<rparr>]\<rparr>"
      by (auto simp: vars_set_def split: if_splits)
    have "find_var N (var_list s') = Some i"
      using fv i by (simp add: s' find_var_update)
    then show ?thesis
      using valid False i by (simp add: vars_get_def s')
  qed
qed

text \<open>
  C1. For every name \<open>N\<close> and value \<open>V\<close>: when \<open>vars_set(N, V)\<close> succeeds (returns 0, which
  it does only for a valid name), \<open>vars_get(N)\<close> on the resulting state returns exactly
  \<open>V\<close>, whatever the state before the call: whether \<open>N\<close> had an exported record (the
  environment is written and read), an unexported one (the private value is written and
  read), or none.
\<close>

theorem vars_set_then_get:
  assumes "vars_set y (Some N) (Some V) s = (0, s')"
  shows "vars_get (Some N) s' = Some V"
  using assms by (rule vars_set_then_get_aux)

text \<open>
  The witness: in the scenario shell \<open>PWD\<close> is not in the environment (the new record is
  private) and \<open>HOME\<close> is (the new record is exported).
\<close>

theorem vars_set_then_get_witness:
  "fst (vars_set all_ok (Some ''PWD'') (Some ''/tmp'') boot) = 0
   \<and> vars_get (Some ''PWD'') (snd (vars_set all_ok (Some ''PWD'') (Some ''/tmp'') boot))
       = Some ''/tmp''
   \<and> fst (vars_set all_ok (Some ''HOME'') (Some ''/root'') boot) = 0
   \<and> vars_get (Some ''HOME'') (snd (vars_set all_ok (Some ''HOME'') (Some ''/root'') boot))
       = Some ''/root''"
proof -
  have a: "fst (vars_set all_ok (Some ''PWD'') (Some ''/tmp'') boot) = 0"
    by (simp add: vars_set_succeeds valid_PWD all_ok_def)
  have b: "fst (vars_set all_ok (Some ''HOME'') (Some ''/root'') boot) = 0"
    by (simp add: vars_set_succeeds valid_HOME all_ok_def)
  from a have a': "vars_set all_ok (Some ''PWD'') (Some ''/tmp'') boot
      = (0, snd (vars_set all_ok (Some ''PWD'') (Some ''/tmp'') boot))"
    by (simp add: prod_eq_iff)
  from b have b': "vars_set all_ok (Some ''HOME'') (Some ''/root'') boot
      = (0, snd (vars_set all_ok (Some ''HOME'') (Some ''/root'') boot))"
    by (simp add: prod_eq_iff)
  from a b vars_set_then_get [OF a'] vars_set_then_get [OF b'] show ?thesis by simp
qed

subsection \<open>One record per name\<close>

lemma ensure_var_names:
  assumes "distinct (map var_name (var_list s))"
  shows "distinct (map var_name (var_list (snd (ensure_var y n s))))"
proof (cases "find_var n (var_list s)")
  case None
  then have "n \<notin> var_name ` set (var_list s)" by (simp add: find_var_None)
  with assms None show ?thesis by (simp add: ensure_var_def new_var_def)
next
  case (Some i)
  with assms show ?thesis by (simp add: ensure_var_def)
qed

lemma ensure_var_index:
  "ensure_var y n s = (Some i, s1) \<Longrightarrow> i < length (var_list s1) \<and> var_name (var_list s1 ! i) = n"
  using ensure_var_Some find_var_Some by blast

lemma remove_var_names: "map var_name (remove_var n l) = remove1 n (map var_name l)"
  by (induction l) auto

lemma setenv_var_list: "var_list (snd (setenv y n v s)) = var_list s"
  by (simp add: setenv_def)

lemma unsetenv_var_list: "var_list (snd (unsetenv n s)) = var_list s"
  by (simp add: unsetenv_def)

lemma vars_set_distinct:
  assumes "distinct (map var_name (var_list s))"
  shows "distinct (map var_name (var_list (snd (vars_set y name val s))))"
proof (cases "\<exists>n v. name = Some n \<and> val = Some v \<and> is_valid_varname n")
  case False
  with assms show ?thesis
    by (auto simp: vars_set_def split: option.splits)
next
  case True
  then obtain n v where nv: "name = Some n" "val = Some v" "is_valid_varname n" by blast
  obtain p s1 where ens: "ensure_var y n s = (p, s1)" by (cases "ensure_var y n s")
  from ensure_var_names [OF assms, of y n] ens
  have d1: "distinct (map var_name (var_list s1))" by simp
  show ?thesis
  proof (cases p)
    case None
    with nv ens d1 show ?thesis by (simp add: vars_set_def)
  next
    case (Some i)
    from ensure_var_index [OF ens [unfolded Some]]
    have i: "i < length (var_list s1)" by simp
    have upd: "map var_name ((var_list s1)[i := (var_list s1 ! i)\<lparr>var_value := Some v\<rparr>])
        = map var_name (var_list s1)"
      using i by (simp add: map_var_name_update)
    show ?thesis
      using nv ens Some d1 upd by (simp add: vars_set_def setenv_var_list)
  qed
qed

lemma vars_unset_distinct:
  assumes "distinct (map var_name (var_list s))"
  shows "distinct (map var_name (var_list (snd (vars_unset name s))))"
  using assms
  by (auto simp: vars_unset_def unsetenv_var_list remove_var_names split: option.splits)

lemma vars_export_distinct:
  assumes "distinct (map var_name (var_list s))"
  shows "distinct (map var_name (var_list (snd (vars_export y name s))))"
proof (cases "\<exists>n. name = Some n \<and> is_valid_varname n")
  case False
  with assms show ?thesis
    by (auto simp: vars_export_def split: option.splits)
next
  case True
  then obtain n where n: "name = Some n" "is_valid_varname n" by blast
  obtain p s1 where ens: "ensure_var y n s = (p, s1)" by (cases "ensure_var y n s")
  from ensure_var_names [OF assms, of y n] ens
  have d1: "distinct (map var_name (var_list s1))" by simp
  show ?thesis
  proof (cases p)
    case None
    with n ens d1 show ?thesis by (simp add: vars_export_def)
  next
    case (Some i)
    from ensure_var_index [OF ens [unfolded Some]]
    have i: "i < length (var_list s1)" by simp
    have upd: "map var_name ((var_list s1)[i := (var_list s1 ! i)\<lparr>var_export := True\<rparr>])
        = map var_name (var_list s1)"
      using i by (simp add: map_var_name_update)
    obtain r s3 where se: "setenv y n (the (var_value (var_list s1 ! i)))
        (s1\<lparr>var_list := (var_list s1)[i := (var_list s1 ! i)\<lparr>var_export := True\<rparr>]\<rparr>) = (r, s3)"
      by (cases "setenv y n (the (var_value (var_list s1 ! i)))
        (s1\<lparr>var_list := (var_list s1)[i := (var_list s1 ! i)\<lparr>var_export := True\<rparr>]\<rparr>)")
    from setenv_var_list [of y n "the (var_value (var_list s1 ! i))"
        "s1\<lparr>var_list := (var_list s1)[i := (var_list s1 ! i)\<lparr>var_export := True\<rparr>]\<rparr>"] se
    have vl3: "var_list s3 = (var_list s1)[i := (var_list s1 ! i)\<lparr>var_export := True\<rparr>]"
      by simp
    show ?thesis
      using n ens Some d1 upd i se vl3 ensure_var_index [OF ens [unfolded Some]]
      by (auto simp: vars_export_def Let_def split: option.splits prod.splits)
  qed
qed

lemma apply_op_distinct:
  "distinct (map var_name (var_list s)) \<Longrightarrow> distinct (map var_name (var_list (apply_op x s)))"
  by (cases x) (simp_all add: vars_set_distinct vars_unset_distinct vars_export_distinct)

lemma run_ops_distinct:
  "distinct (map var_name (var_list s)) \<Longrightarrow> distinct (map var_name (var_list (run_ops xs s)))"
  by (induction xs arbitrary: s) (simp_all add: apply_op_distinct)

lemma distinct_names_records:
  "distinct (map var_name l) \<Longrightarrow> length (filter (\<lambda>v. var_name v = n) l) \<le> 1"
proof (induction l)
  case Nil
  then show ?case by simp
next
  case (Cons v vs)
  show ?case
  proof (cases "var_name v = n")
    case True
    with Cons.prems have "filter (\<lambda>w. var_name w = n) vs = []"
      by (force simp: filter_empty_conv image_iff)
    with True show ?thesis by simp
  next
    case False
    with Cons show ?thesis by simp
  qed
qed

text \<open>
  C9. Starting from a shell whose private table is empty (whatever its environment), after
  every sequence of \<open>set\<close>, \<open>get\<close>, \<open>unset\<close> and \<open>export\<close> calls, with any arguments and
  any library failures, and at every point of the sequence (after its first \<open>k\<close> calls),
  the table holds at most one record for each name.
\<close>

theorem one_record_per_name:
  "records_for n (run_ops (take k ops) (s0\<lparr>var_list := []\<rparr>)) \<le> 1"
proof -
  have "distinct (map var_name (var_list (s0\<lparr>var_list := []\<rparr>)))" by simp
  then have "distinct (map var_name (var_list (run_ops (take k ops) (s0\<lparr>var_list := []\<rparr>))))"
    by (rule run_ops_distinct)
  then show ?thesis
    unfolding records_for_def by (rule distinct_names_records)
qed

text \<open>
  A run in which every operation meets the same name: after two sets, an export and
  another set the table still has the one record; after the unset it has none.
\<close>

theorem one_record_per_name_witness:
  "records_for ''X''
     (run_ops [Op_set all_ok (Some ''X'') (Some ''1''), Op_set all_ok (Some ''X'') (Some ''2''),
               Op_export all_ok (Some ''X''), Op_get (Some ''X''),
               Op_set all_ok (Some ''X'') (Some ''3'')] (boot\<lparr>var_list := []\<rparr>)) = 1
   \<and> records_for ''X''
     (run_ops (take 5 [Op_set all_ok (Some ''X'') (Some ''1''), Op_set all_ok (Some ''X'') (Some ''2''),
               Op_export all_ok (Some ''X''), Op_get (Some ''X''),
               Op_set all_ok (Some ''X'') (Some ''3''), Op_unset (Some ''X'')])
        (boot\<lparr>var_list := []\<rparr>)) \<le> 1"
proof -
  have "records_for ''X''
     (run_ops [Op_set all_ok (Some ''X'') (Some ''1''), Op_set all_ok (Some ''X'') (Some ''2''),
               Op_export all_ok (Some ''X''), Op_get (Some ''X''),
               Op_set all_ok (Some ''X'') (Some ''3'')] (boot\<lparr>var_list := []\<rparr>)) = 1"
    by (simp add: records_for_def vars_set_def vars_export_def ensure_var_def new_var_def
        getenv_def setenv_def valid_X boot_def all_ok_def)
  with one_record_per_name [of "''X''" 5 "[Op_set all_ok (Some ''X'') (Some ''1''),
      Op_set all_ok (Some ''X'') (Some ''2''), Op_export all_ok (Some ''X''), Op_get (Some ''X''),
      Op_set all_ok (Some ''X'') (Some ''3''), Op_unset (Some ''X'')]" boot]
  show ?thesis by simp
qed

subsection \<open>Failing writes\<close>

lemma vars_get_ensure_var:
  "vars_get m (snd (ensure_var y n s)) = vars_get m s"
proof (cases "find_var n (var_list s)")
  case (Some i)
  then show ?thesis by (simp add: ensure_var_def)
next
  case None
  show ?thesis
  proof (cases "malloc_ok y")
    case False
    with None show ?thesis by (simp add: ensure_var_def new_var_def)
  next
    case True
    with None have s1: "snd (ensure_var y n s) =
        s\<lparr>var_list := \<lparr>var_name = n, var_export = (environ s n \<noteq> None), var_value = None\<rparr>
                        # var_list s\<rparr>"
      by (simp add: ensure_var_def new_var_def getenv_def)
    show ?thesis
    proof (cases m)
      case None
      then show ?thesis by (simp add: vars_get_def)
    next
      case (Some k)
      show ?thesis
      proof (cases "k = n")
        case True
        with Some None show ?thesis
          by (auto simp: s1 vars_get_def getenv_def)
      next
        case False
        with Some show ?thesis
          by (cases "find_var k (var_list s)") (auto simp: s1 vars_get_def getenv_def)
      qed
    qed
  qed
qed

lemma environ_ensure_var: "environ (snd (ensure_var y n s)) = environ s"
  by (simp add: ensure_var_def new_var_def split: option.splits)

text \<open>
  A \<open>vars_set\<close> that fails leaves the environment as it was and changes the answer of no
  \<open>vars_get\<close>: the copy and the \<open>setenv\<close> are tried before anything is stored.
\<close>

lemma vars_set_failure_unobservable:
  assumes "fst (vars_set y name val s) \<noteq> 0"
  shows "environ (snd (vars_set y name val s)) = environ s
         \<and> vars_get m (snd (vars_set y name val s)) = vars_get m s"
proof (cases "\<exists>n v. name = Some n \<and> val = Some v \<and> is_valid_varname n")
  case False
  then show ?thesis by (auto simp: vars_set_def split: option.splits)
next
  case True
  then obtain n v where nv: "name = Some n" "val = Some v" "is_valid_varname n" by blast
  obtain p s1 where ens: "ensure_var y n s = (p, s1)" by (cases "ensure_var y n s")
  have s1: "environ s1 = environ s" "vars_get m s1 = vars_get m s"
    using environ_ensure_var [of y n s] vars_get_ensure_var [of m y n s] ens by simp_all
  have "snd (vars_set y name val s) = s1"
    using assms nv ens
    by (auto simp: vars_set_def setenv_def split: option.splits if_splits)
  with s1 show ?thesis by simp
qed

text \<open>
  C3, at the failing input. The table holds the unexported \<open>X=v\<close> and \<open>setenv\<close> fails:
  \<open>vars_export(X)\<close> returns \<open>-1\<close> and leaves the environment alone, but the record stays
  marked exported, so that \<open>vars_get(X)\<close>, which answered \<open>v\<close> before the call, now reads the
  environment and finds nothing.
\<close>

theorem vars_export_failure_keeps_mark:
  "vars_get (Some ''X'') private_X = Some ''v''
   \<and> vars_export setenv_fails (Some ''X'') private_X
       = (- 1, private_X\<lparr>var_list :=
                 [\<lparr>var_name = ''X'', var_export = True, var_value = Some ''v''\<rparr>]\<rparr>)
   \<and> environ (snd (vars_export setenv_fails (Some ''X'') private_X)) = environ private_X
   \<and> vars_get (Some ''X'') (snd (vars_export setenv_fails (Some ''X'') private_X)) = None"
proof -
  have a: "vars_get (Some ''X'') private_X = Some ''v''"
    by (simp add: vars_get_def valid_X private_X_def)
  have b: "vars_export setenv_fails (Some ''X'') private_X
       = (- 1, private_X\<lparr>var_list :=
                 [\<lparr>var_name = ''X'', var_export = True, var_value = Some ''v''\<rparr>]\<rparr>)"
    by (simp add: vars_export_def valid_X ensure_var_def private_X_def setenv_def
        setenv_fails_def all_ok_def)
  have c: "vars_get (Some ''X'') (private_X\<lparr>var_list :=
                 [\<lparr>var_name = ''X'', var_export = True, var_value = Some ''v''\<rparr>]\<rparr>) = None"
    by (simp add: vars_get_def valid_X private_X_def getenv_def)
  from a b c show ?thesis by simp
qed

section \<open>The redirection shim\<close>

lemma get_pseudo_fd_find:
  "get_pseudo_fd L fd =
     (case find (\<lambda>r. realfd r = fd \<or> pseudofd r = fd) L of
        None \<Rightarrow> fd
      | Some r \<Rightarrow> if realfd r = fd then - 1 else realfd r)"
  by (induction L) auto

text \<open>
  Read clause by clause, the specification agrees with the code whenever the descriptor
  is not in a real slot, and whenever it is in no pseudo slot.
\<close>

lemma get_pseudo_fd_no_real:
  "\<not> list_ex (\<lambda>r. realfd r = fd) L \<Longrightarrow> get_pseudo_fd L fd = resolve_by_clauses L fd"
  by (induction L) (auto simp: resolve_by_clauses_def)

lemma get_pseudo_fd_no_pseudo:
  "\<not> list_ex (\<lambda>r. pseudofd r = fd) L \<Longrightarrow> get_pseudo_fd L fd = resolve_by_clauses L fd"
  by (induction L) (auto simp: resolve_by_clauses_def list_ex_iff split: option.splits if_splits)

text \<open>
  C2, as the claim states it, fails: with the pairs \<open>(2, 5)\<close> and \<open>(7, 2)\<close>, in this order,
  descriptor 2 is in the real slot of the second pair, so the first clause promises
  \<open>-1\<close>; the loop stops at the first pair, whose pseudo slot is 2, and returns 5.
\<close>

theorem get_pseudo_fd_clauses_counterexample:
  "get_pseudo_fd [\<lparr>pseudofd = 2, realfd = 5\<rparr>, \<lparr>pseudofd = 7, realfd = 2\<rparr>] 2 = 5
   \<and> resolve_by_clauses [\<lparr>pseudofd = 2, realfd = 5\<rparr>, \<lparr>pseudofd = 7, realfd = 2\<rparr>] 2 = - 1"
  by (simp add: resolve_by_clauses_def)

text \<open>
  C2, amended. For every list and descriptor, the first pair in list order that has the
  descriptor in either slot decides: \<open>-1\<close> if it is that pair's real slot, that pair's real
  descriptor otherwise (it is then its pseudo slot); with no such pair the descriptor is
  returned unchanged. For the list \<open>[(10, 2)]\<close>: 10 resolves to 2, 2 to \<open>-1\<close>, 1 to 1.
\<close>

theorem get_pseudo_fd_first_match:
  "get_pseudo_fd L fd =
     (case find (\<lambda>r. realfd r = fd \<or> pseudofd r = fd) L of
        None \<Rightarrow> fd
      | Some r \<Rightarrow> if realfd r = fd then - 1 else realfd r)
   \<and> get_pseudo_fd [\<lparr>pseudofd = 10, realfd = 2\<rparr>] 10 = 2
   \<and> get_pseudo_fd [\<lparr>pseudofd = 10, realfd = 2\<rparr>] 2 = - 1
   \<and> get_pseudo_fd [\<lparr>pseudofd = 10, realfd = 2\<rparr>] 1 = 1"
proof -
  have "get_pseudo_fd [\<lparr>pseudofd = 10, realfd = 2\<rparr>] 10 = 2" by simp
  moreover have "get_pseudo_fd [\<lparr>pseudofd = 10, realfd = 2\<rparr>] 2 = - 1" by simp
  moreover have "get_pseudo_fd [\<lparr>pseudofd = 10, realfd = 2\<rparr>] 1 = 1" by simp
  ultimately show ?thesis using get_pseudo_fd_find [of L fd] by blast
qed

theorem get_pseudo_fd_first_match_witness:
  "get_pseudo_fd [\<lparr>pseudofd = 2, realfd = 5\<rparr>, \<lparr>pseudofd = 7, realfd = 2\<rparr>] 2 = 5
   \<and> get_pseudo_fd [\<lparr>pseudofd = 2, realfd = 5\<rparr>, \<lparr>pseudofd = 7, realfd = 2\<rparr>] 7 = 2
   \<and> get_pseudo_fd [\<lparr>pseudofd = 2, realfd = 5\<rparr>, \<lparr>pseudofd = 7, realfd = 2\<rparr>] 5 = - 1
   \<and> get_pseudo_fd [\<lparr>pseudofd = 2, realfd = 5\<rparr>, \<lparr>pseudofd = 7, realfd = 2\<rparr>] 1 = 1"
  using get_pseudo_fd_first_match [of "[\<lparr>pseudofd = 2, realfd = 5\<rparr>, \<lparr>pseudofd = 7, realfd = 2\<rparr>]" 2]
    get_pseudo_fd_first_match [of "[\<lparr>pseudofd = 2, realfd = 5\<rparr>, \<lparr>pseudofd = 7, realfd = 2\<rparr>]" 7]
    get_pseudo_fd_first_match [of "[\<lparr>pseudofd = 2, realfd = 5\<rparr>, \<lparr>pseudofd = 7, realfd = 2\<rparr>]" 5]
    get_pseudo_fd_first_match [of "[\<lparr>pseudofd = 2, realfd = 5\<rparr>, \<lparr>pseudofd = 7, realfd = 2\<rparr>]" 1]
  by simp

section \<open>The cd builtin\<close>

lemma vars_set_frame:
  "trace (snd (vars_set y name val s)) = trace s
   \<and> cwd (snd (vars_set y name val s)) = cwd s
   \<and> params_status (snd (vars_set y name val s)) = params_status s"
  by (auto simp: vars_set_def ensure_var_def new_var_def setenv_def
      split: option.splits prod.splits if_splits)

lemma vars_get_frame:
  "var_list s' = var_list s \<Longrightarrow> environ s' = environ s \<Longrightarrow> vars_get n s' = vars_get n s"
  by (simp add: vars_get_def getenv_def split: option.splits)

lemma chdir_frame:
  "var_list (snd (chdir y p s)) = var_list s \<and> environ (snd (chdir y p s)) = environ s
   \<and> trace (snd (chdir y p s)) = trace s @ [Chdir p]"
  by (simp add: chdir_def Let_def split: option.splits)

lemma chdir_vars_get: "vars_get n (snd (chdir y p s)) = vars_get n s"
  by (rule vars_get_frame) (simp_all add: chdir_frame)

lemma chdir_cwd:
  "cwd (snd (chdir y (Some p) s)) = (case resolve_dir y (cwd s) p of None \<Rightarrow> cwd s | Some d \<Rightarrow> d)"
  by (simp add: chdir_def Let_def split: option.splits)

lemma new_events_append: "trace s' = trace s @ es \<Longrightarrow> new_events s s' = es"
  by (simp add: new_events_def)

lemma new_events_dprintf:
  "trace s1 = trace s \<Longrightarrow> new_events s (dprintf fd msg s1) = [Write fd msg]"
  by (simp add: new_events_def dprintf_def)

text \<open>
  The last part of \<open>builtin_cd\<close>, common to the branch with one word and the branch with
  two: \<open>vars_set("PWD", t)\<close>, the diagnostic when it fails, otherwise \<open>chdir\<close> to what
  \<open>vars_get("PWD")\<close> answers, and 0.
\<close>

lemma builtin_cd_tail:
  assumes "(word_count cmd = 1 \<and> vars_get (Some ''HOME'') s = Some t)
           \<or> (word_count cmd = 2 \<and> vars_is_valid_varname (words cmd ! 1) \<and> words cmd ! 1 = t)"
  shows "builtin_cd y cmd R s =
           (case vars_set y (Some ''PWD'') (Some t) s of
              (r, s1) \<Rightarrow>
                if r \<noteq> 0 then
                  (- 1, dprintf (get_pseudo_fd R STDERR_FILENO) (''cd: Error setting PWD'' @ newline) s1)
                else (0, snd (chdir y (vars_get (Some ''PWD'') s1) s1)))"
  using assms by (auto simp: builtin_cd_def)

lemma builtin_cd_no_words:
  assumes "word_count cmd = 0"
  shows "builtin_cd y cmd R s =
           (- 1, dprintf (get_pseudo_fd R STDERR_FILENO) (''cd: Error setting PWD'' @ newline) s)"
  using assms by (simp add: builtin_cd_def vars_set_def)

lemma builtin_cd_success:
  assumes "fst (builtin_cd y cmd R s) = 0"
  shows "\<exists>t s1. ((word_count cmd = 1 \<and> vars_get (Some ''HOME'') s = Some t)
                  \<or> (word_count cmd = 2 \<and> vars_is_valid_varname (words cmd ! 1) \<and> words cmd ! 1 = t))
           \<and> vars_set y (Some ''PWD'') (Some t) s = (0, s1)
           \<and> vars_get (Some ''PWD'') s1 = Some t
           \<and> builtin_cd y cmd R s = (0, snd (chdir y (Some t) s1))"
proof -
  have wc: "word_count cmd = 1 \<or> word_count cmd = 2"
  proof (rule ccontr)
    assume "\<not> ?thesis"
    then have "word_count cmd = 0 \<or> word_count cmd > 2" by arith
    then have "fst (builtin_cd y cmd R s) = - 1"
      using builtin_cd_no_words [of cmd y R s] by (auto simp: builtin_cd_def)
    with assms show False by simp
  qed
  have "\<exists>t. (word_count cmd = 1 \<and> vars_get (Some ''HOME'') s = Some t)
           \<or> (word_count cmd = 2 \<and> vars_is_valid_varname (words cmd ! 1) \<and> words cmd ! 1 = t)"
  proof (rule ccontr)
    assume "\<not> ?thesis"
    with wc have "fst (builtin_cd y cmd R s) = - 1"
      by (auto simp: builtin_cd_def)
    with assms show False by simp
  qed
  then obtain t where t: "(word_count cmd = 1 \<and> vars_get (Some ''HOME'') s = Some t)
           \<or> (word_count cmd = 2 \<and> vars_is_valid_varname (words cmd ! 1) \<and> words cmd ! 1 = t)"
    by blast
  obtain r s1 where vs: "vars_set y (Some ''PWD'') (Some t) s = (r, s1)"
    by (cases "vars_set y (Some ''PWD'') (Some t) s")
  from assms have r: "r = 0"
    unfolding builtin_cd_tail [OF t] vs by (auto split: if_splits)
  from vars_set_then_get_aux vs r have g: "vars_get (Some ''PWD'') s1 = Some t" by blast
  have "builtin_cd y cmd R s = (0, snd (chdir y (Some t) s1))"
    unfolding builtin_cd_tail [OF t] vs using r g by simp
  with t vs r g show ?thesis by blast
qed

lemma builtin_cd_failure:
  assumes "fst (builtin_cd y cmd R s) \<noteq> 0"
    and "\<not> (word_count cmd = 2 \<and> \<not> vars_is_valid_varname (words cmd ! 1))"
  shows "fst (builtin_cd y cmd R s) = - 1
         \<and> (\<exists>msg. new_events s (snd (builtin_cd y cmd R s))
                    = [Write (get_pseudo_fd R STDERR_FILENO) msg])"
proof -
  have wc: "word_count cmd = 0 \<or> word_count cmd = 1 \<or> word_count cmd = 2 \<or> word_count cmd > 2"
    by arith
  define T where "T = (\<lambda>t. (word_count cmd = 1 \<and> vars_get (Some ''HOME'') s = Some t)
           \<or> (word_count cmd = 2 \<and> vars_is_valid_varname (words cmd ! 1) \<and> words cmd ! 1 = t))"
  have "word_count cmd = 0
      \<or> (word_count cmd = 1 \<and> vars_get (Some ''HOME'') s = None)
      \<or> word_count cmd > 2
      \<or> (\<exists>t. T t)"
    unfolding T_def using assms(2) wc by (cases "vars_get (Some ''HOME'') s") auto
  then consider (zero) "word_count cmd = 0"
    | (home) "word_count cmd = 1" "vars_get (Some ''HOME'') s = None"
    | (many) "word_count cmd > 2"
    | (tail) t where "T t"
    by auto
  then show ?thesis
  proof cases
    case zero
    then show ?thesis by (simp add: builtin_cd_no_words new_events_dprintf)
  next
    case home
    then show ?thesis by (simp add: builtin_cd_def new_events_dprintf)
  next
    case many
    then show ?thesis by (simp add: builtin_cd_def new_events_dprintf)
  next
    case tail
    then have tail: "(word_count cmd = 1 \<and> vars_get (Some ''HOME'') s = Some t)
           \<or> (word_count cmd = 2 \<and> vars_is_valid_varname (words cmd ! 1) \<and> words cmd ! 1 = t)"
      by (simp add: T_def)
    obtain r s1 where vs: "vars_set y (Some ''PWD'') (Some t) s = (r, s1)"
      by (cases "vars_set y (Some ''PWD'') (Some t) s")
    with vars_set_frame [of y "Some ''PWD''" "Some t" s] have tr: "trace s1 = trace s" by simp
    from assms(1) have "r \<noteq> 0"
      unfolding builtin_cd_tail [OF tail] vs by (auto split: if_splits)
    then show ?thesis
      unfolding builtin_cd_tail [OF tail] vs using tr by (simp add: new_events_dprintf)
  qed
qed

lemma builtin_cd_invalid_name:
  assumes "word_count cmd = 2" "\<not> vars_is_valid_varname (words cmd ! 1)"
  shows "builtin_cd y cmd R s = (- 1, s)"
  using assms by (simp add: builtin_cd_def)

lemma builtin_cd_runs:
  assumes "(word_count cmd = 1 \<and> vars_get (Some ''HOME'') s = Some t)
           \<or> (word_count cmd = 2 \<and> vars_is_valid_varname (words cmd ! 1) \<and> words cmd ! 1 = t)"
    and "malloc_ok y" "strdup_ok y" "setenv_ok y"
  shows "fst (builtin_cd y cmd R s) = 0"
proof -
  obtain r s1 where vs: "vars_set y (Some ''PWD'') (Some t) s = (r, s1)"
    by (cases "vars_set y (Some ''PWD'') (Some t) s")
  with vars_set_succeeds [OF valid_PWD assms(2-4), of t s] have "r = 0" by simp
  then show ?thesis
    unfolding builtin_cd_tail [OF assms(1)] vs by simp
qed

text \<open>
  A \<open>chdir\<close> event of \<open>builtin_cd\<close> is the only event of the call, and it comes after a
  \<open>vars_set\<close> of \<open>PWD\<close> to the same target that returned 0.
\<close>

lemma builtin_cd_chdir_after_set:
  assumes "Chdir t \<in> set (new_events s (snd (builtin_cd y cmd R s)))"
  shows "\<exists>p s1. t = Some p
           \<and> vars_set y (Some ''PWD'') (Some p) s = (0, s1)
           \<and> builtin_cd y cmd R s = (0, snd (chdir y (Some p) s1))
           \<and> new_events s (snd (builtin_cd y cmd R s)) = [Chdir (Some p)]"
proof -
  have r: "fst (builtin_cd y cmd R s) = 0"
  proof (rule ccontr)
    assume n: "fst (builtin_cd y cmd R s) \<noteq> 0"
    show False
    proof (cases "word_count cmd = 2 \<and> \<not> vars_is_valid_varname (words cmd ! 1)")
      case True
      then have "builtin_cd y cmd R s = (- 1, s)" by (simp add: builtin_cd_invalid_name)
      with assms show False by (simp add: new_events_def)
    next
      case False
      from builtin_cd_failure [OF n False] assms show False by auto
    qed
  qed
  from builtin_cd_success [OF r] obtain p s1 where
    s1: "vars_set y (Some ''PWD'') (Some p) s = (0, s1)"
      "builtin_cd y cmd R s = (0, snd (chdir y (Some p) s1))"
    by blast
  from vars_set_frame [of y "Some ''PWD''" "Some p" s] s1(1)
  have fr: "trace s1 = trace s" by simp
  have e: "new_events s (snd (chdir y (Some p) s1)) = [Chdir (Some p)]"
    using chdir_frame [of y "Some p" s1] fr by (simp add: new_events_append)
  with assms s1(2) have t: "t = Some p" by simp
  from t s1 e show ?thesis by simp
qed

text \<open>
  When the \<open>vars_set\<close> of \<open>PWD\<close> fails, \<open>builtin_cd\<close> returns \<open>-1\<close> after the diagnostic and
  makes no \<open>chdir\<close>.
\<close>

lemma builtin_cd_set_fails:
  assumes "(word_count cmd = 1 \<and> vars_get (Some ''HOME'') s = Some p)
           \<or> (word_count cmd = 2 \<and> vars_is_valid_varname (words cmd ! 1) \<and> words cmd ! 1 = p)"
    and "fst (vars_set y (Some ''PWD'') (Some p) s) \<noteq> 0"
  shows "builtin_cd y cmd R s =
           (- 1, dprintf (get_pseudo_fd R STDERR_FILENO) (''cd: Error setting PWD'' @ newline)
                   (snd (vars_set y (Some ''PWD'') (Some p) s)))
         \<and> new_events s (snd (builtin_cd y cmd R s))
             = [Write (get_pseudo_fd R STDERR_FILENO) (''cd: Error setting PWD'' @ newline)]"
proof -
  obtain r s1 where vs: "vars_set y (Some ''PWD'') (Some p) s = (r, s1)"
    by (cases "vars_set y (Some ''PWD'') (Some p) s")
  with assms(2) have r: "r \<noteq> 0" by simp
  from vars_set_frame [of y "Some ''PWD''" "Some p" s] vs have tr: "trace s1 = trace s" by simp
  show ?thesis
    unfolding builtin_cd_tail [OF assms(1)] vs using r tr by (simp add: new_events_dprintf)
qed

text \<open>
  C6. For every \<open>cd\<close> command. With no argument and \<open>HOME\<close> unset it returns \<open>-1\<close> (with
  the diagnostic). With no argument, whenever it returns 0, \<open>HOME\<close> has a value \<open>h\<close>, the
  store has accepted \<open>PWD = h\<close>, giving a state \<open>s1\<close> in which \<open>PWD\<close> reads \<open>h\<close>, and the
  directory change to \<open>h\<close> is made from \<open>s1\<close>, that is, after the update. With exactly one
  argument, whenever it returns 0, the argument has passed the name grammar, the store
  has accepted \<open>PWD\<close> = the argument, and the directory change to the argument is made
  from the updated state. With more than one argument it returns \<open>-1\<close>. When the library
  does not fail, the two success paths are taken (the builtin returns 0). The update
  comes before the directory change: a \<open>chdir\<close> is among the events of a call only if the
  call returns 0 and the \<open>vars_set\<close> of \<open>PWD\<close> to that same target has returned 0, and it is
  then the only event; and when the \<open>vars_set\<close> of \<open>PWD\<close> to the target fails, the call
  returns \<open>-1\<close> with the diagnostic as its only event, so that no \<open>chdir\<close> is attempted.
\<close>

theorem builtin_cd_target:
  "(word_count cmd = 1 \<and> vars_get (Some ''HOME'') s = None \<longrightarrow>
      builtin_cd y cmd R s =
        (- 1, dprintf (get_pseudo_fd R STDERR_FILENO) (''cd: HOME not set'' @ newline) s))
   \<and> (word_count cmd = 1 \<and> fst (builtin_cd y cmd R s) = 0 \<longrightarrow>
        (\<exists>h s1. vars_get (Some ''HOME'') s = Some h
               \<and> vars_set y (Some ''PWD'') (Some h) s = (0, s1)
               \<and> vars_get (Some ''PWD'') s1 = Some h
               \<and> builtin_cd y cmd R s = (0, snd (chdir y (Some h) s1))))
   \<and> (word_count cmd = 2 \<and> fst (builtin_cd y cmd R s) = 0 \<longrightarrow>
        vars_is_valid_varname (words cmd ! 1)
        \<and> (\<exists>s1. vars_set y (Some ''PWD'') (Some (words cmd ! 1)) s = (0, s1)
               \<and> vars_get (Some ''PWD'') s1 = Some (words cmd ! 1)
               \<and> builtin_cd y cmd R s = (0, snd (chdir y (Some (words cmd ! 1)) s1))))
   \<and> (word_count cmd > 2 \<longrightarrow>
        builtin_cd y cmd R s =
          (- 1, dprintf (get_pseudo_fd R STDERR_FILENO) (''cd: Too many arguments'' @ newline) s))
   \<and> (word_count cmd = 1 \<and> vars_get (Some ''HOME'') s \<noteq> None
        \<and> malloc_ok y \<and> strdup_ok y \<and> setenv_ok y \<longrightarrow> fst (builtin_cd y cmd R s) = 0)
   \<and> (word_count cmd = 2 \<and> vars_is_valid_varname (words cmd ! 1)
        \<and> malloc_ok y \<and> strdup_ok y \<and> setenv_ok y \<longrightarrow> fst (builtin_cd y cmd R s) = 0)
   \<and> (Chdir t \<in> set (new_events s (snd (builtin_cd y cmd R s))) \<longrightarrow>
        fst (builtin_cd y cmd R s) = 0
        \<and> (\<exists>q s1. t = Some q
               \<and> vars_set y (Some ''PWD'') (Some q) s = (0, s1)
               \<and> new_events s (snd (builtin_cd y cmd R s)) = [Chdir (Some q)]))
   \<and> (((word_count cmd = 1 \<and> vars_get (Some ''HOME'') s = Some p)
         \<or> (word_count cmd = 2 \<and> vars_is_valid_varname (words cmd ! 1) \<and> words cmd ! 1 = p))
        \<and> fst (vars_set y (Some ''PWD'') (Some p) s) \<noteq> 0 \<longrightarrow>
        builtin_cd y cmd R s =
          (- 1, dprintf (get_pseudo_fd R STDERR_FILENO) (''cd: Error setting PWD'' @ newline)
                  (snd (vars_set y (Some ''PWD'') (Some p) s)))
        \<and> new_events s (snd (builtin_cd y cmd R s))
            = [Write (get_pseudo_fd R STDERR_FILENO) (''cd: Error setting PWD'' @ newline)])"
proof -
  have c1: "word_count cmd = 1 \<and> vars_get (Some ''HOME'') s = None \<longrightarrow>
      builtin_cd y cmd R s =
        (- 1, dprintf (get_pseudo_fd R STDERR_FILENO) (''cd: HOME not set'' @ newline) s)"
    by (simp add: builtin_cd_def)
  have c2: "word_count cmd = 1 \<and> fst (builtin_cd y cmd R s) = 0 \<longrightarrow>
        (\<exists>h s1. vars_get (Some ''HOME'') s = Some h
               \<and> vars_set y (Some ''PWD'') (Some h) s = (0, s1)
               \<and> vars_get (Some ''PWD'') s1 = Some h
               \<and> builtin_cd y cmd R s = (0, snd (chdir y (Some h) s1)))"
  proof
    assume a: "word_count cmd = 1 \<and> fst (builtin_cd y cmd R s) = 0"
    then obtain t s1 where
      "(word_count cmd = 1 \<and> vars_get (Some ''HOME'') s = Some t)
         \<or> (word_count cmd = 2 \<and> vars_is_valid_varname (words cmd ! 1) \<and> words cmd ! 1 = t)"
      "vars_set y (Some ''PWD'') (Some t) s = (0, s1)"
      "vars_get (Some ''PWD'') s1 = Some t"
      "builtin_cd y cmd R s = (0, snd (chdir y (Some t) s1))"
      using builtin_cd_success [of y cmd R s] by auto
    with a show "\<exists>h s1. vars_get (Some ''HOME'') s = Some h
               \<and> vars_set y (Some ''PWD'') (Some h) s = (0, s1)
               \<and> vars_get (Some ''PWD'') s1 = Some h
               \<and> builtin_cd y cmd R s = (0, snd (chdir y (Some h) s1))"
      by auto
  qed
  have c3: "word_count cmd = 2 \<and> fst (builtin_cd y cmd R s) = 0 \<longrightarrow>
        vars_is_valid_varname (words cmd ! 1)
        \<and> (\<exists>s1. vars_set y (Some ''PWD'') (Some (words cmd ! 1)) s = (0, s1)
               \<and> vars_get (Some ''PWD'') s1 = Some (words cmd ! 1)
               \<and> builtin_cd y cmd R s = (0, snd (chdir y (Some (words cmd ! 1)) s1)))"
  proof
    assume a: "word_count cmd = 2 \<and> fst (builtin_cd y cmd R s) = 0"
    then obtain t s1 where
      "(word_count cmd = 1 \<and> vars_get (Some ''HOME'') s = Some t)
         \<or> (word_count cmd = 2 \<and> vars_is_valid_varname (words cmd ! 1) \<and> words cmd ! 1 = t)"
      "vars_set y (Some ''PWD'') (Some t) s = (0, s1)"
      "vars_get (Some ''PWD'') s1 = Some t"
      "builtin_cd y cmd R s = (0, snd (chdir y (Some t) s1))"
      using builtin_cd_success [of y cmd R s] by auto
    with a show "vars_is_valid_varname (words cmd ! 1)
        \<and> (\<exists>s1. vars_set y (Some ''PWD'') (Some (words cmd ! 1)) s = (0, s1)
               \<and> vars_get (Some ''PWD'') s1 = Some (words cmd ! 1)
               \<and> builtin_cd y cmd R s = (0, snd (chdir y (Some (words cmd ! 1)) s1)))"
      by auto
  qed
  have c4: "word_count cmd > 2 \<longrightarrow>
        builtin_cd y cmd R s =
          (- 1, dprintf (get_pseudo_fd R STDERR_FILENO) (''cd: Too many arguments'' @ newline) s)"
    by (simp add: builtin_cd_def)
  have c5: "word_count cmd = 1 \<and> vars_get (Some ''HOME'') s \<noteq> None
        \<and> malloc_ok y \<and> strdup_ok y \<and> setenv_ok y \<longrightarrow> fst (builtin_cd y cmd R s) = 0"
    using builtin_cd_runs [of cmd s _ y R] by auto
  have c6: "word_count cmd = 2 \<and> vars_is_valid_varname (words cmd ! 1)
        \<and> malloc_ok y \<and> strdup_ok y \<and> setenv_ok y \<longrightarrow> fst (builtin_cd y cmd R s) = 0"
    using builtin_cd_runs [of cmd s "words cmd ! 1" y R] by auto
  have c7: "Chdir t \<in> set (new_events s (snd (builtin_cd y cmd R s))) \<longrightarrow>
        fst (builtin_cd y cmd R s) = 0
        \<and> (\<exists>q s1. t = Some q
               \<and> vars_set y (Some ''PWD'') (Some q) s = (0, s1)
               \<and> new_events s (snd (builtin_cd y cmd R s)) = [Chdir (Some q)])"
  proof
    assume "Chdir t \<in> set (new_events s (snd (builtin_cd y cmd R s)))"
    from builtin_cd_chdir_after_set [OF this] obtain q s1 where
      q: "t = Some q" "vars_set y (Some ''PWD'') (Some q) s = (0, s1)"
        "builtin_cd y cmd R s = (0, snd (chdir y (Some q) s1))"
        "new_events s (snd (builtin_cd y cmd R s)) = [Chdir (Some q)]"
      by blast
    from q(3) have "fst (builtin_cd y cmd R s) = 0" by simp
    with q(1,2,4) show "fst (builtin_cd y cmd R s) = 0
        \<and> (\<exists>q s1. t = Some q
               \<and> vars_set y (Some ''PWD'') (Some q) s = (0, s1)
               \<and> new_events s (snd (builtin_cd y cmd R s)) = [Chdir (Some q)])"
      by blast
  qed
  have c8: "((word_count cmd = 1 \<and> vars_get (Some ''HOME'') s = Some p)
         \<or> (word_count cmd = 2 \<and> vars_is_valid_varname (words cmd ! 1) \<and> words cmd ! 1 = p))
        \<and> fst (vars_set y (Some ''PWD'') (Some p) s) \<noteq> 0 \<longrightarrow>
        builtin_cd y cmd R s =
          (- 1, dprintf (get_pseudo_fd R STDERR_FILENO) (''cd: Error setting PWD'' @ newline)
                  (snd (vars_set y (Some ''PWD'') (Some p) s)))
        \<and> new_events s (snd (builtin_cd y cmd R s))
            = [Write (get_pseudo_fd R STDERR_FILENO) (''cd: Error setting PWD'' @ newline)]"
  proof
    assume h: "((word_count cmd = 1 \<and> vars_get (Some ''HOME'') s = Some p)
         \<or> (word_count cmd = 2 \<and> vars_is_valid_varname (words cmd ! 1) \<and> words cmd ! 1 = p))
        \<and> fst (vars_set y (Some ''PWD'') (Some p) s) \<noteq> 0"
    from h have a: "(word_count cmd = 1 \<and> vars_get (Some ''HOME'') s = Some p)
         \<or> (word_count cmd = 2 \<and> vars_is_valid_varname (words cmd ! 1) \<and> words cmd ! 1 = p)"
      by (rule conjunct1)
    from h have b: "fst (vars_set y (Some ''PWD'') (Some p) s) \<noteq> 0"
      by (rule conjunct2)
    from builtin_cd_set_fails [OF a b]
    show "builtin_cd y cmd R s =
          (- 1, dprintf (get_pseudo_fd R STDERR_FILENO) (''cd: Error setting PWD'' @ newline)
                  (snd (vars_set y (Some ''PWD'') (Some p) s)))
        \<and> new_events s (snd (builtin_cd y cmd R s))
            = [Write (get_pseudo_fd R STDERR_FILENO) (''cd: Error setting PWD'' @ newline)]" .
  qed
  from c1 c2 c3 c4 c5 c6 c7 c8 show ?thesis by (intro conjI)
qed

lemma boot_HOME: "vars_get (Some ''HOME'') boot = Some ''/home/u''"
  by (simp add: vars_get_def valid_HOME boot_def getenv_def)

lemma boot_PWD_no_memory:
  "vars_set no_memory (Some ''PWD'') (Some ''/home/u'') boot = (- 1, boot)"
  by (simp add: vars_set_def valid_PWD ensure_var_def new_var_def boot_def no_memory_def
      all_ok_def)

text \<open>
  The scenario of the specification: \<open>cd\<close> with no argument when \<open>HOME=/home/u\<close> returns
  0, \<open>PWD\<close> reads \<open>/home/u\<close> afterwards and the process is there, the \<open>chdir\<close> being the
  event of the call. The same call when \<open>malloc\<close> fails in the update of \<open>PWD\<close>: it returns
  \<open>-1\<close>, the diagnostic is the only event, and the process has not moved.
\<close>

theorem builtin_cd_target_witness:
  "word_count \<lparr>words = [''cd'']\<rparr> = 1
   \<and> fst (builtin_cd all_ok \<lparr>words = [''cd'']\<rparr> [] boot) = 0
   \<and> vars_get (Some ''PWD'') (snd (builtin_cd all_ok \<lparr>words = [''cd'']\<rparr> [] boot))
        = Some ''/home/u''
   \<and> cwd (snd (builtin_cd all_ok \<lparr>words = [''cd'']\<rparr> [] boot)) = ''/home/u''
   \<and> new_events boot (snd (builtin_cd all_ok \<lparr>words = [''cd'']\<rparr> [] boot))
        = [Chdir (Some ''/home/u'')]
   \<and> fst (vars_set all_ok (Some ''PWD'') (Some ''/home/u'') boot) = 0
   \<and> fst (vars_set no_memory (Some ''PWD'') (Some ''/home/u'') boot) \<noteq> 0
   \<and> builtin_cd no_memory \<lparr>words = [''cd'']\<rparr> [] boot
        = (- 1, boot\<lparr>trace := [Write 2 (''cd: Error setting PWD'' @ newline)]\<rparr>)
   \<and> new_events boot (snd (builtin_cd no_memory \<lparr>words = [''cd'']\<rparr> [] boot))
        = [Write 2 (''cd: Error setting PWD'' @ newline)]
   \<and> cwd (snd (builtin_cd no_memory \<lparr>words = [''cd'']\<rparr> [] boot)) = ''/''"
proof -
  have wc: "word_count \<lparr>words = [''cd'']\<rparr> = 1" by (simp add: word_count_def)
  have ok: "malloc_ok all_ok \<and> strdup_ok all_ok \<and> setenv_ok all_ok" by (simp add: all_ok_def)
  note inst = builtin_cd_target [of "\<lparr>words = [''cd'']\<rparr>" boot all_ok "[]" "Some ''/home/u''"]
  from inst wc ok boot_HOME have r: "fst (builtin_cd all_ok \<lparr>words = [''cd'']\<rparr> [] boot) = 0"
    by simp
  with inst wc boot_HOME obtain s1 where
    s1: "vars_set all_ok (Some ''PWD'') (Some ''/home/u'') boot = (0, s1)"
      "vars_get (Some ''PWD'') s1 = Some ''/home/u''"
      "builtin_cd all_ok \<lparr>words = [''cd'']\<rparr> [] boot = (0, snd (chdir all_ok (Some ''/home/u'') s1))"
    by auto
  from vars_set_frame [of all_ok "Some ''PWD''" "Some ''/home/u''" boot] s1(1)
  have fr: "trace s1 = trace boot" "cwd s1 = cwd boot" by simp_all
  have g: "vars_get (Some ''PWD'') (snd (chdir all_ok (Some ''/home/u'') s1)) = Some ''/home/u''"
    using s1(2) by (simp add: chdir_vars_get)
  have d: "cwd (snd (chdir all_ok (Some ''/home/u'') s1)) = ''/home/u''"
    by (simp add: chdir_cwd all_ok_def)
  have e: "new_events boot (snd (chdir all_ok (Some ''/home/u'') s1)) = [Chdir (Some ''/home/u'')]"
    using chdir_frame [of all_ok "Some ''/home/u''" s1] fr by (simp add: new_events_append)
  from e s1(3) have ev: "Chdir (Some ''/home/u'')
      \<in> set (new_events boot (snd (builtin_cd all_ok \<lparr>words = [''cd'']\<rparr> [] boot)))"
    by simp
  from s1(1) have vs_ok: "fst (vars_set all_ok (Some ''PWD'') (Some ''/home/u'') boot) = 0"
    by simp
  have vs_bad: "fst (vars_set no_memory (Some ''PWD'') (Some ''/home/u'') boot) \<noteq> 0"
    by (simp add: boot_PWD_no_memory)
  have pre: "((word_count \<lparr>words = [''cd'']\<rparr> = 1 \<and> vars_get (Some ''HOME'') boot = Some ''/home/u'')
         \<or> (word_count \<lparr>words = [''cd'']\<rparr> = 2
             \<and> vars_is_valid_varname (words \<lparr>words = [''cd'']\<rparr> ! 1)
             \<and> words \<lparr>words = [''cd'']\<rparr> ! 1 = ''/home/u''))
        \<and> fst (vars_set no_memory (Some ''PWD'') (Some ''/home/u'') boot) \<noteq> 0"
    using wc boot_HOME vs_bad by simp
  note imp = builtin_cd_target [of "\<lparr>words = [''cd'']\<rparr>" boot no_memory "[]" None "''/home/u''",
      THEN conjunct2, THEN conjunct2, THEN conjunct2, THEN conjunct2, THEN conjunct2,
      THEN conjunct2, THEN conjunct2]
  from imp pre have both: "builtin_cd no_memory \<lparr>words = [''cd'']\<rparr> [] boot
        = (- 1, dprintf (get_pseudo_fd [] STDERR_FILENO) (''cd: Error setting PWD'' @ newline)
                  (snd (vars_set no_memory (Some ''PWD'') (Some ''/home/u'') boot)))
      \<and> new_events boot (snd (builtin_cd no_memory \<lparr>words = [''cd'']\<rparr> [] boot))
          = [Write (get_pseudo_fd [] STDERR_FILENO) (''cd: Error setting PWD'' @ newline)]"
    by (rule mp)
  note bad = both [THEN conjunct1] both [THEN conjunct2]
  have dp: "dprintf 2 (''cd: Error setting PWD'' @ newline) boot
      = boot\<lparr>trace := [Write 2 (''cd: Error setting PWD'' @ newline)]\<rparr>"
    by (simp add: dprintf_def boot_def)
  have bad': "builtin_cd no_memory \<lparr>words = [''cd'']\<rparr> [] boot
        = (- 1, boot\<lparr>trace := [Write 2 (''cd: Error setting PWD'' @ newline)]\<rparr>)"
    by (simp only: bad(1) boot_PWD_no_memory snd_conv get_pseudo_fd.simps STDERR_FILENO_def dp)
  have "cwd boot = ''/''" by (simp add: boot_def)
  then have cw: "cwd (snd (builtin_cd no_memory \<lparr>words = [''cd'']\<rparr> [] boot)) = ''/''"
    by (simp add: bad')
  have ev2: "new_events boot (snd (builtin_cd no_memory \<lparr>words = [''cd'']\<rparr> [] boot))
        = [Write 2 (''cd: Error setting PWD'' @ newline)]"
    using bad(2) by (simp only: get_pseudo_fd.simps STDERR_FILENO_def)
  from r s1(3) g have g': "vars_get (Some ''PWD'') (snd (builtin_cd all_ok \<lparr>words = [''cd'']\<rparr> [] boot))
        = Some ''/home/u''"
    by simp
  from s1(3) d have d': "cwd (snd (builtin_cd all_ok \<lparr>words = [''cd'']\<rparr> [] boot)) = ''/home/u''"
    by simp
  from s1(3) e have e': "new_events boot (snd (builtin_cd all_ok \<lparr>words = [''cd'']\<rparr> [] boot))
        = [Chdir (Some ''/home/u'')]"
    by simp
  from wc r g' d' e' vs_ok vs_bad bad' ev2 cw show ?thesis
    by (intro conjI)
qed

text \<open>
  C7. Whenever \<open>builtin_cd\<close> reaches its \<open>chdir\<close> call (the call is among the events of
  the invocation), it returns 0; the target is a string \<open>p\<close>, \<open>PWD\<close> reads \<open>p\<close> in the final
  state, and this also when \<open>chdir\<close> fails (\<open>p\<close> names no directory), in which case the
  process is still in the directory it was in: the failure does not reach the status.
\<close>

theorem builtin_cd_ignores_chdir_failure:
  assumes "Chdir t \<in> set (new_events s (snd (builtin_cd y cmd R s)))"
  shows "fst (builtin_cd y cmd R s) = 0
         \<and> (\<exists>p. t = Some p
              \<and> vars_get (Some ''PWD'') (snd (builtin_cd y cmd R s)) = Some p
              \<and> (resolve_dir y (cwd s) p = None \<longrightarrow> cwd (snd (builtin_cd y cmd R s)) = cwd s))"
proof -
  have r: "fst (builtin_cd y cmd R s) = 0"
  proof (rule ccontr)
    assume n: "fst (builtin_cd y cmd R s) \<noteq> 0"
    show False
    proof (cases "word_count cmd = 2 \<and> \<not> vars_is_valid_varname (words cmd ! 1)")
      case True
      then have "builtin_cd y cmd R s = (- 1, s)" by (simp add: builtin_cd_invalid_name)
      with assms show False by (simp add: new_events_def)
    next
      case False
      from builtin_cd_failure [OF n False] assms show False by auto
    qed
  qed
  from builtin_cd_success [OF r] obtain p s1 where
    s1: "vars_set y (Some ''PWD'') (Some p) s = (0, s1)"
      "vars_get (Some ''PWD'') s1 = Some p"
      "builtin_cd y cmd R s = (0, snd (chdir y (Some p) s1))"
    by blast
  from vars_set_frame [of y "Some ''PWD''" "Some p" s] s1(1)
  have fr: "trace s1 = trace s" "cwd s1 = cwd s" by simp_all
  have e: "new_events s (snd (chdir y (Some p) s1)) = [Chdir (Some p)]"
    using chdir_frame [of y "Some p" s1] fr by (simp add: new_events_append)
  with assms s1(3) have t: "t = Some p" by simp
  have g: "vars_get (Some ''PWD'') (snd (chdir y (Some p) s1)) = Some p"
    using s1(2) by (simp add: chdir_vars_get)
  have d: "resolve_dir y (cwd s) p = None \<longrightarrow> cwd (snd (chdir y (Some p) s1)) = cwd s"
    by (simp add: chdir_cwd fr)
  from r t g d s1(3) show ?thesis by simp
qed

lemma valid_nowhere: "vars_is_valid_varname ''nowhere''"
  by code_simp

text \<open>
  \<open>cd nowhere\<close> where no path names a directory: the status is 0, \<open>PWD\<close> reads \<open>nowhere\<close>,
  the process has not moved.
\<close>

theorem builtin_cd_ignores_chdir_failure_witness:
  "Chdir (Some ''nowhere'')
     \<in> set (new_events boot (snd (builtin_cd no_directory \<lparr>words = [''cd'', ''nowhere'']\<rparr> [] boot)))
   \<and> resolve_dir no_directory (cwd boot) ''nowhere'' = None
   \<and> fst (builtin_cd no_directory \<lparr>words = [''cd'', ''nowhere'']\<rparr> [] boot) = 0
   \<and> vars_get (Some ''PWD'') (snd (builtin_cd no_directory \<lparr>words = [''cd'', ''nowhere'']\<rparr> [] boot))
        = Some ''nowhere''
   \<and> cwd (snd (builtin_cd no_directory \<lparr>words = [''cd'', ''nowhere'']\<rparr> [] boot)) = ''/''"
proof -
  have wc: "word_count \<lparr>words = [''cd'', ''nowhere'']\<rparr> = 2" by (simp add: word_count_def)
  have ev: "Chdir (Some ''nowhere'')
     \<in> set (new_events boot (snd (builtin_cd no_directory \<lparr>words = [''cd'', ''nowhere'']\<rparr> [] boot)))"
    by (simp add: builtin_cd_def wc valid_nowhere vars_set_def valid_PWD ensure_var_def
        new_var_def getenv_def boot_def no_directory_def all_ok_def vars_get_def chdir_def
        new_events_def)
  have nd: "resolve_dir no_directory (cwd boot) ''nowhere'' = None"
    by (simp add: no_directory_def all_ok_def)
  have "cwd boot = ''/''" by (simp add: boot_def)
  with builtin_cd_ignores_chdir_failure [OF ev] nd ev show ?thesis by auto
qed

text \<open>
  C10. A \<open>cd\<close> with exactly one argument that fails the name grammar returns \<open>-1\<close> and
  leaves the whole state as it was: nothing is written to any descriptor and \<open>PWD\<close> is
  untouched. Every other call of \<open>cd\<close> that does not return 0 returns \<open>-1\<close> and makes
  exactly one \<open>dprintf\<close>, to the descriptor the shim gives for standard error.
\<close>

theorem builtin_cd_invalid_name_silent:
  "(word_count cmd = 2 \<and> \<not> vars_is_valid_varname (words cmd ! 1) \<longrightarrow>
      builtin_cd y cmd R s = (- 1, s))
   \<and> (fst (builtin_cd y cmd R s) \<noteq> 0
        \<and> \<not> (word_count cmd = 2 \<and> \<not> vars_is_valid_varname (words cmd ! 1)) \<longrightarrow>
        fst (builtin_cd y cmd R s) = - 1
        \<and> (\<exists>msg. new_events s (snd (builtin_cd y cmd R s))
                   = [Write (get_pseudo_fd R STDERR_FILENO) msg]))"
  using builtin_cd_invalid_name [of cmd y R s] builtin_cd_failure [of y cmd R s]
  by blast

lemma invalid_a_b: "\<not> vars_is_valid_varname ''a-b''"
  by code_simp

theorem builtin_cd_invalid_name_silent_witness:
  "word_count \<lparr>words = [''cd'', ''a-b'']\<rparr> = 2
   \<and> \<not> vars_is_valid_varname (words \<lparr>words = [''cd'', ''a-b'']\<rparr> ! 1)
   \<and> builtin_cd all_ok \<lparr>words = [''cd'', ''a-b'']\<rparr> [\<lparr>pseudofd = 2, realfd = 7\<rparr>] boot = (- 1, boot)
   \<and> new_events boot (snd (builtin_cd all_ok \<lparr>words = [''cd'', ''a-b'']\<rparr> [\<lparr>pseudofd = 2, realfd = 7\<rparr>] boot)) = []
   \<and> fst (builtin_cd all_ok \<lparr>words = [''cd'', ''a'', ''b'']\<rparr> [\<lparr>pseudofd = 2, realfd = 7\<rparr>] boot) = - 1
   \<and> new_events boot (snd (builtin_cd all_ok \<lparr>words = [''cd'', ''a'', ''b'']\<rparr> [\<lparr>pseudofd = 2, realfd = 7\<rparr>] boot))
       = [Write 7 (''cd: Too many arguments'' @ newline)]"
proof -
  have wc: "word_count \<lparr>words = [''cd'', ''a-b'']\<rparr> = 2" by (simp add: word_count_def)
  have inv: "\<not> vars_is_valid_varname (words \<lparr>words = [''cd'', ''a-b'']\<rparr> ! 1)"
    by (simp add: invalid_a_b)
  from builtin_cd_invalid_name_silent
    [of "\<lparr>words = [''cd'', ''a-b'']\<rparr>" all_ok "[\<lparr>pseudofd = 2, realfd = 7\<rparr>]" boot] wc inv
  have a: "builtin_cd all_ok \<lparr>words = [''cd'', ''a-b'']\<rparr> [\<lparr>pseudofd = 2, realfd = 7\<rparr>] boot
      = (- 1, boot)"
    by blast
  have b: "builtin_cd all_ok \<lparr>words = [''cd'', ''a'', ''b'']\<rparr> [\<lparr>pseudofd = 2, realfd = 7\<rparr>] boot
      = (- 1, dprintf 7 (''cd: Too many arguments'' @ newline) boot)"
    by (simp add: builtin_cd_def word_count_def STDERR_FILENO_def)
  from wc inv a b show ?thesis
    by (simp add: new_events_def dprintf_def)
qed

section \<open>The fg builtin\<close>

lemma builtin_fg_unresolved:
  assumes "fg_job_id y J cmd R s = Inr j" "jobs_get_pgid J j < 0"
  shows "builtin_fg y J cmd R s =
           Finishes (- 1, dprintf (get_pseudo_fd R STDERR_FILENO) (''fg: '' @ strerror y EINVAL) s)"
  using assms by (simp add: builtin_fg_def)

lemma strtol_3: "strtol ''3'' = (3, 1)"
  by (simp add: strtol_def isspace_c_def isdigit_c_def char_at_def LONG_MAX_def LONG_MIN_def)

text \<open>
  C8. For every \<open>fg\<close> invocation: with no argument and an empty job list it returns \<open>-1\<close>
  after the one \<open>dprintf\<close> of \<open>No jobs\<close> (to the descriptor the shim gives for standard
  error); and whenever the argument handling yields a job id (the first job's, with no
  argument; the parsed number, with one) whose process group \<open>jobs_get_pgid\<close> cannot
  resolve (a negative result), it returns \<open>-1\<close> and the only event of the call is the
  diagnostic: no \<open>kill\<close> is made.
\<close>

theorem builtin_fg_no_job:
  "(word_count cmd = 1 \<and> joblist J = [] \<longrightarrow>
      builtin_fg y J cmd R s =
        Finishes (- 1, dprintf (get_pseudo_fd R STDERR_FILENO) (''No jobs'' @ newline) s))
   \<and> (word_count cmd = 1 \<and> joblist J \<noteq> [] \<longrightarrow>
        fg_job_id y J cmd R s = Inr (jid (hd (joblist J))))
   \<and> (fg_job_id y J cmd R s = Inr j \<and> jobs_get_pgid J j < 0 \<longrightarrow>
        (\<exists>s'. builtin_fg y J cmd R s = Finishes (- 1, s')
              \<and> new_events s s'
                   = [Write (get_pseudo_fd R STDERR_FILENO) (''fg: '' @ strerror y EINVAL)]
              \<and> (\<forall>p g. Kill p g \<notin> set (new_events s s'))))"
proof -
  have a: "word_count cmd = 1 \<and> joblist J = [] \<longrightarrow>
      builtin_fg y J cmd R s =
        Finishes (- 1, dprintf (get_pseudo_fd R STDERR_FILENO) (''No jobs'' @ newline) s)"
    by (simp add: builtin_fg_def fg_job_id_def)
  have b: "word_count cmd = 1 \<and> joblist J \<noteq> [] \<longrightarrow>
        fg_job_id y J cmd R s = Inr (jid (hd (joblist J)))"
    by (simp add: fg_job_id_def hd_conv_nth)
  have c: "fg_job_id y J cmd R s = Inr j \<and> jobs_get_pgid J j < 0 \<longrightarrow>
        (\<exists>s'. builtin_fg y J cmd R s = Finishes (- 1, s')
              \<and> new_events s s'
                   = [Write (get_pseudo_fd R STDERR_FILENO) (''fg: '' @ strerror y EINVAL)]
              \<and> (\<forall>p g. Kill p g \<notin> set (new_events s s')))"
  proof
    assume h: "fg_job_id y J cmd R s = Inr j \<and> jobs_get_pgid J j < 0"
    then have "builtin_fg y J cmd R s =
        Finishes (- 1, dprintf (get_pseudo_fd R STDERR_FILENO) (''fg: '' @ strerror y EINVAL) s)"
      by (simp add: builtin_fg_unresolved)
    moreover have "new_events s (dprintf (get_pseudo_fd R STDERR_FILENO) (''fg: '' @ strerror y EINVAL) s)
        = [Write (get_pseudo_fd R STDERR_FILENO) (''fg: '' @ strerror y EINVAL)]"
      by (simp add: new_events_dprintf)
    ultimately show "\<exists>s'. builtin_fg y J cmd R s = Finishes (- 1, s')
              \<and> new_events s s'
                   = [Write (get_pseudo_fd R STDERR_FILENO) (''fg: '' @ strerror y EINVAL)]
              \<and> (\<forall>p g. Kill p g \<notin> set (new_events s s'))"
      by auto
  qed
  from a b c show ?thesis by simp
qed

text \<open>
  The two scenarios of the specification: \<open>fg\<close> with an empty job list, and \<open>fg 3\<close> where
  job 3 does not exist. In a third run job 3 exists, in group 40: the group is signalled.
\<close>

theorem builtin_fg_no_job_witness:
  "builtin_fg all_ok no_jobs \<lparr>words = [''fg'']\<rparr> [] boot
     = Finishes (- 1, boot\<lparr>trace := [Write 2 (''No jobs'' @ newline)]\<rparr>)
   \<and> fg_job_id all_ok no_jobs \<lparr>words = [''fg'', ''3'']\<rparr> [] boot = Inr 3
   \<and> jobs_get_pgid no_jobs 3 < 0
   \<and> builtin_fg all_ok no_jobs \<lparr>words = [''fg'', ''3'']\<rparr> [] boot
     = Finishes (- 1, boot\<lparr>trace := [Write 2 ''fg: Invalid argument'']\<rparr>)
   \<and> builtin_fg all_ok job_3 \<lparr>words = [''fg'', ''3'']\<rparr> [] boot
     = Finishes (0, boot\<lparr>trace := [Kill (- 40) SIGCONT]\<rparr>)"
proof -
  have wc1: "word_count \<lparr>words = [''fg'']\<rparr> = 1" by (simp add: word_count_def)
  have jl: "joblist no_jobs = []" by (simp add: no_jobs_def)
  have id3: "fg_job_id all_ok no_jobs \<lparr>words = [''fg'', ''3'']\<rparr> [] boot = Inr 3"
    by (simp add: fg_job_id_def word_count_def strtol_3 char_at_def NUL_def INT_MAX_def)
  have pg: "jobs_get_pgid no_jobs 3 < 0" by (simp add: no_jobs_def)
  have run: "builtin_fg all_ok job_3 \<lparr>words = [''fg'', ''3'']\<rparr> [] boot
     = Finishes (0, boot\<lparr>trace := [Kill (- 40) SIGCONT]\<rparr>)"
    by (simp add: builtin_fg_def fg_job_id_def word_count_def strtol_3 char_at_def NUL_def
        INT_MAX_def job_3_def kill_def boot_def)
  from builtin_fg_no_job [of "\<lparr>words = [''fg'']\<rparr>" no_jobs all_ok "[]" boot] wc1 jl
  have a: "builtin_fg all_ok no_jobs \<lparr>words = [''fg'']\<rparr> [] boot
     = Finishes (- 1, boot\<lparr>trace := [Write 2 (''No jobs'' @ newline)]\<rparr>)"
    by (simp add: dprintf_def STDERR_FILENO_def boot_def)
  from builtin_fg_no_job [of "\<lparr>words = [''fg'', ''3'']\<rparr>" no_jobs all_ok "[]" boot 3] id3 pg
  obtain s' where s': "builtin_fg all_ok no_jobs \<lparr>words = [''fg'', ''3'']\<rparr> [] boot = Finishes (- 1, s')"
    by blast
  have b: "builtin_fg all_ok no_jobs \<lparr>words = [''fg'', ''3'']\<rparr> [] boot
     = Finishes (- 1, boot\<lparr>trace := [Write 2 ''fg: Invalid argument'']\<rparr>)"
    using id3 pg
    by (simp add: builtin_fg_def dprintf_def STDERR_FILENO_def boot_def all_ok_def)
  from a id3 pg b run show ?thesis by simp
qed

section \<open>The exit builtin\<close>

lemma sign_drop:
  "(case r of [] \<Rightarrow> [] | c # t \<Rightarrow> if c = CHR ''-'' \<or> c = CHR ''+'' then t else r)
     = drop (if char_at r 0 = CHR ''-'' \<or> char_at r 0 = CHR ''+'' then 1 else 0) r"
  by (cases r) (auto simp: char_at_def NUL_def)

lemma char_at_in_range: "cstring w \<Longrightarrow> i < length w \<Longrightarrow> char_at w i \<noteq> NUL"
  by (metis cstring_def char_at_def nth_mem)

lemma char_at_end: "char_at w (length w) = NUL"
  by (simp add: char_at_def)

text \<open>
  The test \<open>builtin_exit\<close> makes on what \<open>strtol\<close> returns rejects exactly the arguments
  that are not a base-10 integer.
\<close>

lemma exit_check:
  assumes cs: "cstring w"
  shows "(case strtol w of (v, e) \<Rightarrow> char_at w e \<noteq> NUL \<or> char_at w e = char_at w 0)
           \<longleftrightarrow> \<not> parses_base10 w"
proof -
  define ws where "ws = takeWhile isspace_c w"
  define r where "r = dropWhile isspace_c w"
  define sg :: nat where "sg = (if char_at r 0 = CHR ''-'' \<or> char_at r 0 = CHR ''+'' then 1 else 0)"
  define d where "d = drop sg r"
  define ds where "ds = takeWhile isdigit_c d"
  define rest where "rest = dropWhile isdigit_c d"
  have w: "w = ws @ r" by (simp add: ws_def r_def)
  have sg_le: "sg \<le> length r"
    by (cases r) (auto simp: sg_def char_at_def NUL_def)
  have len_r: "length r = sg + length d" using sg_le by (simp add: d_def)
  have d: "d = ds @ rest" by (simp add: ds_def rest_def)
  have len_w: "length w = length ws + sg + length ds + length rest"
    using w len_r d by (metis length_append add.assoc)
  have pb: "parses_base10 w \<longleftrightarrow> d \<noteq> [] \<and> list_all isdigit_c d"
    unfolding parses_base10_def Let_def sign_drop
    by (simp add: d_def sg_def r_def isdigit_c_digits [symmetric])
  have all_ds: "list_all isdigit_c ds"
    unfolding ds_def list_all_iff using set_takeWhileD by fastforce
  have rest_iff: "rest = [] \<longleftrightarrow> list_all isdigit_c d"
    unfolding rest_def list_all_iff by (simp add: dropWhile_eq_Nil_conv)
  have ds_Nil: "ds = [] \<longleftrightarrow> d = [] \<or> \<not> isdigit_c (hd d)"
    unfolding ds_def by (cases d) (auto simp: takeWhile_eq_Nil_iff)
  have st: "snd (strtol w) = (if ds = [] then 0 else length ws + sg + length ds)"
    by (simp add: strtol_def Let_def ws_def r_def sg_def d_def ds_def)
  show ?thesis
  proof (cases "ds = []")
    case True
    with st have "snd (strtol w) = 0" by simp
    then have chk: "(case strtol w of (v, e) \<Rightarrow> char_at w e \<noteq> NUL \<or> char_at w e = char_at w 0)"
      by (cases "strtol w") simp
    have "\<not> parses_base10 w"
    proof
      assume "parses_base10 w"
      with pb have "d \<noteq> []" "list_all isdigit_c d" by simp_all
      then have "isdigit_c (hd d)" by (cases d) simp_all
      with \<open>d \<noteq> []\<close> ds_Nil True show False by simp
    qed
    with chk show ?thesis by simp
  next
    case False
    with st have e: "snd (strtol w) = length ws + sg + length ds" by simp
    from False d have dne: "d \<noteq> []" by auto
    show ?thesis
    proof (cases "rest = []")
      case True
      with len_w e have el: "snd (strtol w) = length w" by simp
      from False len_w have "0 < length w" by simp
      with cs have "char_at w 0 \<noteq> NUL" by (simp add: char_at_in_range)
      with el have "\<not> (case strtol w of (v, e) \<Rightarrow> char_at w e \<noteq> NUL \<or> char_at w e = char_at w 0)"
        by (cases "strtol w") (auto simp: char_at_end)
      moreover from True rest_iff dne pb have "parses_base10 w" by simp
      ultimately show ?thesis by simp
    next
      case rne: False
      with len_w e have "snd (strtol w) < length w" by simp
      with cs have "char_at w (snd (strtol w)) \<noteq> NUL" by (simp add: char_at_in_range)
      then have "(case strtol w of (v, e) \<Rightarrow> char_at w e \<noteq> NUL \<or> char_at w e = char_at w 0)"
        by (cases "strtol w") simp
      moreover from rne rest_iff pb have "\<not> parses_base10 w" by simp
      ultimately show ?thesis by simp
    qed
  qed
qed

lemma builtin_exit_two_words:
  assumes "word_count cmd = 2"
  shows "builtin_exit cmd R s =
     (if (case strtol (words cmd ! 1) of
            (v, e) \<Rightarrow> char_at (words cmd ! 1) e \<noteq> NUL
                      \<or> char_at (words cmd ! 1) e = char_at (words cmd ! 1) 0)
      then (Returns (- 1), dprintf (get_pseudo_fd R STDERR_FILENO)
                             (''exit: Non-numeric value given'' @ newline) s)
      else (Exits, s\<lparr>params_status := long_to_int (fst (strtol (words cmd ! 1)))\<rparr>))"
  using assms
  by (cases "strtol (words cmd ! 1)") (simp add: builtin_exit_def bigshell_exit_def)

lemma not_parses_12x: "\<not> parses_base10 ''12x''"
  by (simp add: parses_base10_def isspace_c_def digits_def)

lemma not_parses_empty: "\<not> parses_base10 ''''"
  by (simp add: parses_base10_def)

text \<open>
  C5. For every \<open>exit\<close> command with exactly one argument (a C string): the process is
  ended inside the builtin if and only if the argument parses as a base-10 integer with
  at least one digit and nothing after the digits; then the status recorded is the parsed
  value. For every argument that does not, such as \<open>12x\<close> or the empty string, the
  builtin returns \<open>-1\<close> after its diagnostic and the process goes on. With more than one
  argument it returns \<open>-1\<close> after its diagnostic and the process goes on.
\<close>

theorem builtin_exit_numeric:
  "(word_count cmd = 2 \<and> cstring (words cmd ! 1) \<longrightarrow>
      (fst (builtin_exit cmd R s) = Exits \<longleftrightarrow> parses_base10 (words cmd ! 1))
      \<and> (parses_base10 (words cmd ! 1) \<longrightarrow>
           builtin_exit cmd R s
             = (Exits, s\<lparr>params_status := long_to_int (fst (strtol (words cmd ! 1)))\<rparr>))
      \<and> (\<not> parses_base10 (words cmd ! 1) \<longrightarrow>
           builtin_exit cmd R s
             = (Returns (- 1), dprintf (get_pseudo_fd R STDERR_FILENO)
                                 (''exit: Non-numeric value given'' @ newline) s)))
   \<and> (word_count cmd > 2 \<longrightarrow>
        builtin_exit cmd R s
          = (Returns (- 1), dprintf (get_pseudo_fd R STDERR_FILENO)
                              (''exit: Too many arguments'' @ newline) s))
   \<and> \<not> parses_base10 ''12x'' \<and> \<not> parses_base10 ''''"
proof -
  have a: "word_count cmd = 2 \<and> cstring (words cmd ! 1) \<longrightarrow>
      (fst (builtin_exit cmd R s) = Exits \<longleftrightarrow> parses_base10 (words cmd ! 1))
      \<and> (parses_base10 (words cmd ! 1) \<longrightarrow>
           builtin_exit cmd R s
             = (Exits, s\<lparr>params_status := long_to_int (fst (strtol (words cmd ! 1)))\<rparr>))
      \<and> (\<not> parses_base10 (words cmd ! 1) \<longrightarrow>
           builtin_exit cmd R s
             = (Returns (- 1), dprintf (get_pseudo_fd R STDERR_FILENO)
                                 (''exit: Non-numeric value given'' @ newline) s))"
  proof
    assume h: "word_count cmd = 2 \<and> cstring (words cmd ! 1)"
    then have wc: "word_count cmd = 2" and cs: "cstring (words cmd ! 1)" by simp_all
    show "(fst (builtin_exit cmd R s) = Exits \<longleftrightarrow> parses_base10 (words cmd ! 1))
      \<and> (parses_base10 (words cmd ! 1) \<longrightarrow>
           builtin_exit cmd R s
             = (Exits, s\<lparr>params_status := long_to_int (fst (strtol (words cmd ! 1)))\<rparr>))
      \<and> (\<not> parses_base10 (words cmd ! 1) \<longrightarrow>
           builtin_exit cmd R s
             = (Returns (- 1), dprintf (get_pseudo_fd R STDERR_FILENO)
                                 (''exit: Non-numeric value given'' @ newline) s))"
      unfolding builtin_exit_two_words [OF wc] exit_check [OF cs] by simp
  qed
  have b: "word_count cmd > 2 \<longrightarrow>
        builtin_exit cmd R s
          = (Returns (- 1), dprintf (get_pseudo_fd R STDERR_FILENO)
                              (''exit: Too many arguments'' @ newline) s)"
    by (simp add: builtin_exit_def)
  from a b not_parses_12x not_parses_empty show ?thesis by simp
qed

lemma cstring_12x: "cstring ''12x''"
  by (simp add: cstring_def NUL_def)

lemma cstring_minus_7: "cstring ''-7''"
  by (simp add: cstring_def NUL_def)

lemma parses_minus_7: "parses_base10 ''-7''"
  by (simp add: parses_base10_def isspace_c_def digits_def)

lemma strtol_minus_7: "strtol ''-7'' = (- 7, 2)"
  by (simp add: strtol_def isspace_c_def isdigit_c_def char_at_def LONG_MAX_def LONG_MIN_def)

text \<open>
  The scenario of the specification, \<open>exit 12x\<close>, returns \<open>-1\<close> with the process running;
  \<open>exit -7\<close> ends the process with status \<open>-7\<close> recorded.
\<close>

theorem builtin_exit_numeric_witness:
  "word_count \<lparr>words = [''exit'', ''12x'']\<rparr> = 2
   \<and> cstring (words \<lparr>words = [''exit'', ''12x'']\<rparr> ! 1)
   \<and> builtin_exit \<lparr>words = [''exit'', ''12x'']\<rparr> [] boot
       = (Returns (- 1), boot\<lparr>trace := [Write 2 (''exit: Non-numeric value given'' @ newline)]\<rparr>)
   \<and> parses_base10 ''-7''
   \<and> builtin_exit \<lparr>words = [''exit'', ''-7'']\<rparr> [] boot = (Exits, boot\<lparr>params_status := - 7\<rparr>)"
proof -
  have wc: "word_count \<lparr>words = [''exit'', ''12x'']\<rparr> = 2" "word_count \<lparr>words = [''exit'', ''-7'']\<rparr> = 2"
    by (simp_all add: word_count_def)
  from builtin_exit_numeric [of "\<lparr>words = [''exit'', ''12x'']\<rparr>" "[]" boot] wc cstring_12x
  have a: "builtin_exit \<lparr>words = [''exit'', ''12x'']\<rparr> [] boot
       = (Returns (- 1), dprintf (get_pseudo_fd [] STDERR_FILENO)
                           (''exit: Non-numeric value given'' @ newline) boot)"
    by simp
  from builtin_exit_numeric [of "\<lparr>words = [''exit'', ''-7'']\<rparr>" "[]" boot] wc cstring_minus_7
    parses_minus_7
  have b: "builtin_exit \<lparr>words = [''exit'', ''-7'']\<rparr> [] boot
       = (Exits, boot\<lparr>params_status := long_to_int (fst (strtol ''-7''))\<rparr>)"
    by simp
  have c: "long_to_int (- 7) = - 7" by (simp add: long_to_int_def)
  from wc cstring_12x a b c parses_minus_7 show ?thesis
    by (simp add: strtol_minus_7 dprintf_def STDERR_FILENO_def boot_def)
qed

end
